theory Spec2Isabelle
  imports Complex_Main "HOL-Library.Sublist"
begin

section \<open>Python values and exceptions\<close>

text \<open>
  The module \<^verbatim>\<open>ffprobes3.py\<close> works on Python \<^verbatim>\<open>str\<close> values. A \<^typ>\<open>string\<close>
  models a \<^verbatim>\<open>str\<close> whose code points are below 256: a \<^typ>\<open>char\<close> is the code
  point. On these code points the only decimal digits (\<^verbatim>\<open>\d\<close>) are \<^verbatim>\<open>0\<close> to
  \<^verbatim>\<open>9\<close>.

  Every exception the module can raise is a value of \<open>error\<close>; a method that may raise
  returns \<open>error + 'a\<close>, with \<open>Inl\<close> for the exception.
  \<^item> \<open>FFProbeError msg\<close>: the package's own exception, with its message. Its class
    is declared in \<^verbatim>\<open>ffprobes3/exceptions.py\<close> (imported at line 10); it is taken
    to derive from \<^verbatim>\<open>Exception\<close> directly, so an \<^verbatim>\<open>except ValueError\<close> does not
    catch it.
  \<^item> \<open>KeyError k\<close>: \<^verbatim>\<open>self.__dict__[k]\<close> on a key that is not there.
  \<^item> \<open>ValueError\<close>: a failed \<^verbatim>\<open>int()\<close>, \<^verbatim>\<open>float()\<close> or tuple unpacking.
  \<^item> \<open>ZeroDivisionError\<close>: a float division by zero.
  \<^item> \<open>OverflowError\<close>: an \<^verbatim>\<open>int\<close> too large to convert to \<^verbatim>\<open>float\<close>.
  \<^item> \<open>TypeError\<close>: a call of an object that is not callable.
\<close>

datatype error =
    FFProbeError string
  | KeyError string
  | ValueError
  | ZeroDivisionError
  | OverflowError
  | TypeError

text \<open>
  A Python \<^verbatim>\<open>float\<close> is an IEEE 754 binary64 value: a finite value (kept as the
  rational it denotes), an infinity, or a NaN. The sign of zero is not kept.
\<close>

datatype pyfloat = Finite rat | PosInf | NegInf | NaN

text \<open>\<^verbatim>\<open>frames()\<close> returns an \<^verbatim>\<open>int\<close> on some paths and a \<^verbatim>\<open>float\<close> on others.\<close>

datatype pynum = PyInt int | PyFloat pyfloat

definition bindE :: "error + 'a \<Rightarrow> ('a \<Rightarrow> error + 'b) \<Rightarrow> error + 'b" where
  "bindE m f = (case m of Inl e \<Rightarrow> Inl e | Inr x \<Rightarrow> f x)"

text \<open>\<^verbatim>\<open>try: m except ValueError: raise e\<close>\<close>

definition except_ValueError :: "error + 'a \<Rightarrow> error \<Rightarrow> error + 'a" where
  "except_ValueError m e = (case m of Inl ValueError \<Rightarrow> Inl e | _ \<Rightarrow> m)"

definition of_option :: "'a option \<Rightarrow> error + 'a" where
  "of_option r = (case r of None \<Rightarrow> Inl ValueError | Some x \<Rightarrow> Inr x)"

section \<open>Builtins on strings\<close>

definition is_digit :: "char \<Rightarrow> bool" where
  "is_digit c = (c \<in> set ''0123456789'')"

definition digit_val :: "char \<Rightarrow> int" where
  "digit_val c = of_char c - 48"

text \<open>The value of a run of digits, most significant first.\<close>

definition digits_val :: "string \<Rightarrow> int" where
  "digits_val ds = foldl (\<lambda>n c. 10 * n + digit_val c) 0 ds"

text \<open>
  \<^verbatim>\<open>str.isspace\<close> on code points below 256: the characters \<^verbatim>\<open>str.strip()\<close>
  removes.
\<close>

definition py_isspace :: "char \<Rightarrow> bool" where
  "py_isspace c = (of_char c \<in> {9, 10, 11, 12, 13, 28, 29, 30, 31, 32, 133, 160 :: nat})"

definition py_strip :: "string \<Rightarrow> string" where
  "py_strip s = rev (dropWhile py_isspace (rev (dropWhile py_isspace s)))"

text \<open>\<^verbatim>\<open>s.split(sep)\<close> for a separator of one character: never an empty list.\<close>

fun py_split :: "char \<Rightarrow> string \<Rightarrow> string list" where
  "py_split sep [] = [[]]"
| "py_split sep (c # cs) =
     (if c = sep then [] # py_split sep cs
      else (case py_split sep cs of
              [] \<Rightarrow> [[c]]
            | w # ws \<Rightarrow> (c # w) # ws))"

text \<open>
  \<^verbatim>\<open>int()\<close> and \<^verbatim>\<open>float()\<close> drop a narrower set of blanks from both ends of their
  argument (the file, group, record and unit separators 28 to 31 are not in it).
\<close>

definition num_space :: "char \<Rightarrow> bool" where
  "num_space c = (of_char c \<in> {9, 10, 11, 12, 13, 32, 133, 160 :: nat})"

definition strip_num :: "string \<Rightarrow> string" where
  "strip_num s = rev (dropWhile num_space (rev (dropWhile num_space s)))"

text \<open>
  An underscore is accepted in a numeric literal only between two digits;
  \<open>underscores_ok p s\<close> checks \<open>s\<close>, where \<open>p\<close> says that the character before
  \<open>s\<close> is a digit.
\<close>

fun underscores_ok :: "bool \<Rightarrow> string \<Rightarrow> bool" where
  "underscores_ok p [] = True"
| "underscores_ok p (c # cs) =
     (if c = CHR ''_''
      then p \<and> (case cs of [] \<Rightarrow> False | d # _ \<Rightarrow> is_digit d) \<and> underscores_ok False cs
      else underscores_ok (is_digit c) cs)"

definition drop_underscores :: "string \<Rightarrow> string" where
  "drop_underscores s = filter (\<lambda>c. c \<noteq> CHR ''_'') s"

text \<open>An optional sign: the sign (1 or -1) and the rest.\<close>

definition take_sign :: "string \<Rightarrow> int \<times> string" where
  "take_sign s =
     (case s of
        [] \<Rightarrow> (1, s)
      | c # cs \<Rightarrow> if c = CHR ''+'' then (1, cs) else if c = CHR ''-'' then (-1, cs) else (1, s))"

text \<open>
  The interpreter refuses to convert a string of more than 4300 digits to an \<^verbatim>\<open>int\<close>
  (the default of \<^verbatim>\<open>sys.set_int_max_str_digits\<close>).
\<close>

definition int_max_str_digits :: nat where
  "int_max_str_digits = 4300"

text \<open>\<^verbatim>\<open>int(s)\<close> in base 10; \<open>None\<close> is \<^verbatim>\<open>ValueError\<close>.\<close>

definition py_int :: "string \<Rightarrow> int option" where
  "py_int s =
     (let (sg, t) = take_sign (strip_num s);
          ds = drop_underscores t
      in if underscores_ok False t \<and> ds \<noteq> [] \<and> list_all is_digit ds
            \<and> length ds \<le> int_max_str_digits
         then Some (sg * digits_val ds)
         else None)"

section \<open>Floats\<close>

text \<open>The number of binary digits of a positive integer.\<close>

function bitlength :: "int \<Rightarrow> int" where
  "bitlength n = (if n \<le> 0 then 0 else 1 + bitlength (n div 2))"
  by auto
termination
  by (relation "measure nat") auto

declare bitlength.simps [simp del]

definition pow2 :: "int \<Rightarrow> rat" where
  "pow2 e = (if 0 \<le> e then 2 ^ nat e else 1 / 2 ^ nat (- e))"

text \<open>Rounding to the nearest integer, a tie to the even one.\<close>

definition round_half_even :: "rat \<Rightarrow> int" where
  "round_half_even q =
     (let f = \<lfloor>q\<rfloor>; d = q - of_int f
      in if d < 1 / 2 then f
         else if 1 / 2 < d then f + 1
         else if even f then f else f + 1)"

text \<open>
  The binary64 value nearest to a rational (ties to even). With \<open>2^e \<le> \<bar>q\<bar> < 2^(e+1)\<close>,
  the unit in the last place is \<open>2^ex\<close> for \<open>ex = max (e - 52) (-1074)\<close> (53 significant
  bits, and -1074 the least exponent), and \<open>\<bar>q\<bar>\<close> is rounded to the multiple \<open>m * 2^ex\<close>.
  A result of \<open>2^1024\<close> or more overflows to an infinity: \<open>m * 2^ex\<close> is that large
  exactly when \<open>m\<close> has more than \<open>1024 - ex\<close> binary digits.
\<close>

definition to_double :: "rat \<Rightarrow> pyfloat" where
  "to_double q =
     (if q = 0 then Finite 0
      else
        let a = \<bar>q\<bar>;
            e0 = bitlength (fst (quotient_of a)) - bitlength (snd (quotient_of a));
            e = (if pow2 e0 \<le> a then e0 else e0 - 1);
            ex = max (e - 52) (- 1074);
            m = round_half_even (a / pow2 ex);
            r = of_int m * pow2 ex
        in if 1024 < bitlength m + ex then (if 0 < q then PosInf else NegInf)
           else Finite (if 0 < q then r else - r))"

definition to_lower :: "char \<Rightarrow> char" where
  "to_lower c = (if 65 \<le> (of_char c :: nat) \<and> (of_char c :: nat) \<le> 90 then char_of (of_char c + (32 :: nat)) else c)"

text \<open>
  The exponent part of a float literal, at the rest \<open>r\<close> of the string after the
  mantissa: the exponent and what is left, or \<open>None\<close> when an \<^verbatim>\<open>e\<close> has no digits
  after it.
\<close>

definition take_exponent :: "string \<Rightarrow> (int \<times> string) option" where
  "take_exponent r =
     (case r of
        [] \<Rightarrow> Some (0, r)
      | c # cs \<Rightarrow>
          if c = CHR ''e'' \<or> c = CHR ''E''
          then (let (es, u) = take_sign cs; ed = takeWhile is_digit u
                in if ed = [] then None
                   else Some (es * digits_val ed, dropWhile is_digit u))
          else Some (0, r))"

text \<open>\<^verbatim>\<open>float(s)\<close>; \<open>None\<close> is \<^verbatim>\<open>ValueError\<close>.\<close>

definition py_float :: "string \<Rightarrow> pyfloat option" where
  "py_float s =
     (let t0 = strip_num s in
      if \<not> underscores_ok False t0 then None
      else
        let (sg, t) = take_sign (drop_underscores t0);
            l = map to_lower t
        in if l = ''inf'' \<or> l = ''infinity'' then Some (if sg = 1 then PosInf else NegInf)
           else if l = ''nan'' then Some NaN
           else
             let ip = takeWhile is_digit t;
                 r1 = dropWhile is_digit t;
                 fp = (case r1 of [] \<Rightarrow> [] | c # cs \<Rightarrow> if c = CHR ''.'' then takeWhile is_digit cs else []);
                 r2 = (case r1 of [] \<Rightarrow> [] | c # cs \<Rightarrow> if c = CHR ''.'' then dropWhile is_digit cs else r1)
             in if ip = [] \<and> fp = [] then None
                else (case take_exponent r2 of
                        None \<Rightarrow> None
                      | Some (ex, r3) \<Rightarrow>
                          if r3 \<noteq> [] then None
                          else Some (to_double (of_int (sg * digits_val (ip @ fp))
                                                * (if int (length fp) \<le> ex
                                                   then 10 ^ nat (ex - int (length fp))
                                                   else 1 / 10 ^ nat (int (length fp) - ex))))))"

text \<open>The conversion of an \<^verbatim>\<open>int\<close> operand to \<^verbatim>\<open>float\<close>.\<close>

definition int_to_float :: "int \<Rightarrow> error + pyfloat" where
  "int_to_float n =
     (case to_double (of_int n) of
        Finite q \<Rightarrow> Inr (Finite q)
      | _ \<Rightarrow> Inl OverflowError)"

definition float_sign :: "pyfloat \<Rightarrow> int" where
  "float_sign x =
     (case x of
        Finite q \<Rightarrow> (if q < 0 then - 1 else if q = 0 then 0 else 1)
      | PosInf \<Rightarrow> 1
      | NegInf \<Rightarrow> - 1
      | NaN \<Rightarrow> 0)"

text \<open>\<^verbatim>\<open>a * b\<close> on floats: an overflow gives an infinity, no exception.\<close>

definition float_mul :: "pyfloat \<Rightarrow> pyfloat \<Rightarrow> pyfloat" where
  "float_mul a b =
     (case (a, b) of
        (Finite x, Finite y) \<Rightarrow> to_double (x * y)
      | (NaN, _) \<Rightarrow> NaN
      | (_, NaN) \<Rightarrow> NaN
      | _ \<Rightarrow> (let s = float_sign a * float_sign b
              in if s = 0 then NaN else if 0 < s then PosInf else NegInf))"

text \<open>\<^verbatim>\<open>a / b\<close> on floats: a zero divisor raises, whatever the dividend.\<close>

definition float_div :: "pyfloat \<Rightarrow> pyfloat \<Rightarrow> error + pyfloat" where
  "float_div a b =
     (if b = Finite 0 then Inl ZeroDivisionError
      else Inr (case (a, b) of
                  (Finite x, Finite y) \<Rightarrow> to_double (x / y)
                | (NaN, _) \<Rightarrow> NaN
                | (_, NaN) \<Rightarrow> NaN
                | (Finite x, _) \<Rightarrow> Finite 0
                | (_, Finite y) \<Rightarrow> (if 0 < float_sign a * float_sign b then PosInf else NegInf)
                | _ \<Rightarrow> NaN))"

text \<open>
  \<^verbatim>\<open>round(x, 2)\<close>: the exact value of \<open>x\<close> is rounded to two decimals (a tie to the
  even digit) and the decimal result converted back to a float; an infinity or a NaN
  rounds to itself.
\<close>

definition py_round2 :: "pyfloat \<Rightarrow> pyfloat" where
  "py_round2 x =
     (case x of
        Finite q \<Rightarrow> to_double (of_int (round_half_even (q * 100)) / 100)
      | _ \<Rightarrow> x)"

text \<open>\<^verbatim>\<open>n * f\<close> and \<^verbatim>\<open>n / f\<close> for a number \<open>n\<close> and a float \<open>f\<close>.\<close>

definition num_to_float :: "pynum \<Rightarrow> error + pyfloat" where
  "num_to_float n = (case n of PyInt i \<Rightarrow> int_to_float i | PyFloat x \<Rightarrow> Inr x)"

definition py_mul :: "pynum \<Rightarrow> pyfloat \<Rightarrow> error + pynum" where
  "py_mul n f = bindE (num_to_float n) (\<lambda>x. Inr (PyFloat (float_mul x f)))"

definition py_truediv :: "pynum \<Rightarrow> pyfloat \<Rightarrow> error + pyfloat" where
  "py_truediv n f = bindE (num_to_float n) (\<lambda>x. float_div x f)"

section \<open>The regular expressions of the module\<close>

text \<open>
  \<^verbatim>\<open>re.match(r'\[STREAM\]', a)\<close> and \<^verbatim>\<open>re.match(r'\[/STREAM\]', a)\<close>: the pattern is
  matched at the start of the line and need not reach its end.
\<close>

definition match_start :: "string \<Rightarrow> bool" where
  "match_start a = (take 8 a = ''[STREAM]'')"

definition match_end :: "string \<Rightarrow> bool" where
  "match_end a = (take 9 a = ''[/STREAM]'')"

text \<open>
  \<^verbatim>\<open>re.search("(\d+)(?:/(\d+))?", raw)\<close>: the match starts at the first digit of
  \<open>raw\<close>; group 1 is the run of digits there, group 2 the run of digits after a
  \<^verbatim>\<open>/\<close> that follows it directly (\<open>None\<close> when there is no such run).
\<close>

definition search_rate :: "string \<Rightarrow> (string \<times> string option) option" where
  "search_rate raw =
     (let t = dropWhile (\<lambda>c. \<not> is_digit c) raw in
      if t = [] then None
      else
        let g1 = takeWhile is_digit t;
            r = dropWhile is_digit t
        in (case r of
              [] \<Rightarrow> Some (g1, None)
            | c # u \<Rightarrow>
                if c = CHR ''/'' \<and> takeWhile is_digit u \<noteq> []
                then Some (g1, Some (takeWhile is_digit u))
                else Some (g1, None)))"

text \<open>
  One \<^verbatim>\<open>(?:00|(\d\d))\<close> of the duration pattern, at the start of \<open>s\<close>: two digits are
  consumed, and the group is set unless they are \<^verbatim>\<open>00\<close>.
\<close>

definition two_digits :: "string \<Rightarrow> (string option \<times> string) option" where
  "two_digits s =
     (case s of
        a # b # r \<Rightarrow>
          if is_digit a \<and> is_digit b
          then Some (if [a, b] = ''00'' then None else Some [a, b], r)
          else None
      | _ \<Rightarrow> None)"

text \<open>\<^verbatim>\<open>:?\<close>\<close>

definition opt_colon :: "string \<Rightarrow> string" where
  "opt_colon s = (case s of [] \<Rightarrow> s | c # r \<Rightarrow> if c = CHR '':'' then r else s)"

text \<open>
  \<^verbatim>\<open>re.search("^(?:00|(\d\d)):?(?:00|(\d\d)):?(?:00|(\d\d))\.(\d+)", td)\<close>: the four
  groups of the match, or \<open>None\<close> when \<open>td\<close> does not match.
\<close>

definition search_duration ::
  "string \<Rightarrow> (string option \<times> string option \<times> string option \<times> string) option" where
  "search_duration td =
     (case two_digits td of
        None \<Rightarrow> None
      | Some (g1, r1) \<Rightarrow>
          (case two_digits (opt_colon r1) of
             None \<Rightarrow> None
           | Some (g2, r2) \<Rightarrow>
               (case two_digits (opt_colon r2) of
                  None \<Rightarrow> None
                | Some (g3, r3) \<Rightarrow>
                    (case r3 of
                       [] \<Rightarrow> None
                     | c # r4 \<Rightarrow>
                         if c = CHR ''.'' \<and> takeWhile is_digit r4 \<noteq> []
                         then Some (g1, g2, g3, takeWhile is_digit r4)
                         else None))))"

section \<open>FFStream\<close>

text \<open>
  An \<^verbatim>\<open>FFStream\<close> object has no state but its attribute dictionary \<^verbatim>\<open>self.__dict__\<close>,
  a map from field names to raw values.
\<close>

type_synonym FFStream = "string \<rightharpoonup> string"

text \<open>
  \<^verbatim>\<open>FFStream.__init__\<close> (lines 105 to 108): each line is stripped as a whole and split at
  every \<^verbatim>\<open>=\<close>; unpacking the result into \<^verbatim>\<open>(key, val)\<close> raises \<^verbatim>\<open>ValueError\<close> unless
  there are exactly two parts.
\<close>

fun FFStream_fill :: "FFStream \<Rightarrow> string list \<Rightarrow> error + FFStream" where
  "FFStream_fill d [] = Inr d"
| "FFStream_fill d (a # data_lines) =
     (case py_split (CHR ''='') (py_strip a) of
        [key, val] \<Rightarrow> FFStream_fill (d(key \<mapsto> val)) data_lines
      | _ \<Rightarrow> Inl ValueError)"

definition FFStream_init :: "string list \<Rightarrow> error + FFStream" where
  "FFStream_init data_lines = FFStream_fill Map.empty data_lines"

text \<open>\<^verbatim>\<open>self.__dict__[k]\<close>\<close>

definition getitem :: "FFStream \<Rightarrow> string \<Rightarrow> error + string" where
  "getitem self k = (case self k of None \<Rightarrow> Inl (KeyError k) | Some v \<Rightarrow> Inr v)"

text \<open>
  A method call \<^verbatim>\<open>self.m()\<close> made inside the class. The attribute \<^verbatim>\<open>m\<close> is looked up
  on the object first: \<^verbatim>\<open>__init__\<close> has written every key of the input into
  \<^verbatim>\<open>self.__dict__\<close>, which is the attribute dictionary of the object, and a method
  of the class is a plain function (a non-data descriptor), so an entry named \<^verbatim>\<open>m\<close>
  shadows it. The entry is a \<^verbatim>\<open>str\<close>, and calling it raises \<^verbatim>\<open>TypeError\<close>. With no
  such entry the method \<open>body\<close> of the class runs. (\<^verbatim>\<open>self.__dict__\<close> itself is a
  data descriptor of the type and is never shadowed.)
\<close>

definition call_method :: "FFStream \<Rightarrow> string \<Rightarrow> (FFStream \<Rightarrow> error + 'a) \<Rightarrow> error + 'a" where
  "call_method self m body = (case self m of Some v \<Rightarrow> Inl TypeError | None \<Rightarrow> body self)"

text \<open>Lines 110 to 138.\<close>

definition is_audio :: "FFStream \<Rightarrow> error + bool" where
  "is_audio self =
     bindE (getitem self ''codec_type'') (\<lambda>ct.
       Inr (if ct \<noteq> [] then (if ct = ''audio'' then True else False) else False))"

definition is_video :: "FFStream \<Rightarrow> error + bool" where
  "is_video self =
     bindE (getitem self ''codec_type'') (\<lambda>ct.
       Inr (if ct \<noteq> [] then (if ct = ''video'' then True else False) else False))"

definition is_subtitle :: "FFStream \<Rightarrow> error + bool" where
  "is_subtitle self =
     bindE (getitem self ''codec_type'') (\<lambda>ct.
       Inr (if ct \<noteq> [] then (if ct = ''subtitle'' then True else False) else False))"

text \<open>
  \<^verbatim>\<open>self.is_video() or self.is_audio()\<close> (lines 173 and 218): two method calls, the
  second made only when the first returns \<^verbatim>\<open>False\<close>.
\<close>

definition is_video_or_audio :: "FFStream \<Rightarrow> error + bool" where
  "is_video_or_audio self =
     bindE (call_method self ''is_video'' is_video) (\<lambda>v.
       if v then Inr True else call_method self ''is_audio'' is_audio)"

text \<open>\<^verbatim>\<open>frame_size\<close> (lines 140 to 155); \<open>None\<close> is Python's \<^verbatim>\<open>None\<close>.\<close>

definition frame_size :: "FFStream \<Rightarrow> error + (int \<times> int) option" where
  "frame_size self =
     bindE (call_method self ''is_video'' is_video) (\<lambda>v.
       if v then
         bindE (getitem self ''width'') (\<lambda>width.
         bindE (getitem self ''height'') (\<lambda>height.
           if width \<noteq> [] \<and> height \<noteq> [] then
             except_ValueError
               (bindE (of_option (py_int width)) (\<lambda>w.
                bindE (of_option (py_int height)) (\<lambda>h. Inr (Some (w, h)))))
               (FFProbeError (''None integer size '' @ width @ '':'' @ height))
           else Inr None))
       else Inr None)"

text \<open>
  The block that \<^verbatim>\<open>get_r_frame_rate\<close> (lines 289 to 304) and \<^verbatim>\<open>get_avg_frame_rate\<close>
  (lines 317 to 327) both run on a non-empty raw value. It may raise \<^verbatim>\<open>ValueError\<close>
  (caught by the caller) or \<^verbatim>\<open>ZeroDivisionError\<close> (not caught).
\<close>

definition rate_of_raw :: "string \<Rightarrow> error + pyfloat" where
  "rate_of_raw raw =
     (case search_rate raw of
        Some (g1, g2) \<Rightarrow>
          if g1 \<noteq> [] then
            bindE (of_option (py_float g1)) (\<lambda>b.
              (case g2 of
                 Some d \<Rightarrow>
                   if d \<noteq> [] then
                     bindE (of_option (py_float d)) (\<lambda>dd.
                     bindE (float_div b dd) (\<lambda>q. Inr (py_round2 q)))
                   else Inr b
               | None \<Rightarrow> Inr b))
          else Inl ValueError
      | None \<Rightarrow> of_option (py_float raw))"

text \<open>\<^verbatim>\<open>get_r_frame_rate\<close> (lines 279 to 309): an empty raw value leaves \<^verbatim>\<open>b = float(0)\<close>.\<close>

definition get_r_frame_rate :: "FFStream \<Rightarrow> error + pyfloat" where
  "get_r_frame_rate self =
     except_ValueError
       (bindE (getitem self ''r_frame_rate'') (\<lambda>raw.
          if raw \<noteq> [] then rate_of_raw raw else Inr (Finite 0)))
       (FFProbeError ''Nothing useful in r_frame_rate'')"

text \<open>\<^verbatim>\<open>get_avg_frame_rate\<close> (lines 311 to 333): an empty raw value raises.\<close>

definition get_avg_frame_rate :: "FFStream \<Rightarrow> error + pyfloat" where
  "get_avg_frame_rate self =
     except_ValueError
       (bindE (getitem self ''avg_frame_rate'') (\<lambda>raw.
          if raw \<noteq> [] then rate_of_raw raw else Inl ValueError))
       (FFProbeError ''Nothing useful in r_frame_rate'')"

text \<open>
  \<^verbatim>\<open>if match.group(i): frame_count += int(match.group(i)) * k\<close> (lines 183 to 191).
\<close>

definition add_group :: "string option \<Rightarrow> int \<Rightarrow> int \<Rightarrow> error + int" where
  "add_group g k frame_count =
     (case g of
        None \<Rightarrow> Inr frame_count
      | Some h \<Rightarrow>
          if h \<noteq> [] then bindE (of_option (py_int h)) (\<lambda>n. Inr (frame_count + n * k))
          else Inr frame_count)"

text \<open>\<^verbatim>\<open>frames\<close> (lines 168 to 210).\<close>

definition frames :: "FFStream \<Rightarrow> error + pynum" where
  "frames self =
     bindE (is_video_or_audio self) (\<lambda>va.
       if va then
         except_ValueError
           (bindE (getitem self ''nb_frames'') (\<lambda>nb.
              if nb \<noteq> ''N/A'' then bindE (of_option (py_int nb)) (\<lambda>n. Inr (PyInt n))
              else
                bindE (getitem self ''TAG:DURATION'') (\<lambda>td.
                  if td \<noteq> [] then
                    (case search_duration td of
                       Some (g1, g2, g3, g4) \<Rightarrow>
                         bindE (add_group g1 (60 * 60) 0) (\<lambda>c1.
                         bindE (add_group g2 60 c1) (\<lambda>c2.
                         bindE (add_group g3 1 c2) (\<lambda>c3.
                         bindE (call_method self ''get_r_frame_rate'' get_r_frame_rate) (\<lambda>fps.
                           py_mul (PyInt c3) fps))))
                     | None \<Rightarrow> Inr (PyInt 0))
                  else Inl ValueError)))
           (FFProbeError ''None integer frame count'')
       else Inr (PyInt 0))"

text \<open>\<^verbatim>\<open>duration_seconds\<close> (lines 212 to 229).\<close>

definition duration_seconds :: "FFStream \<Rightarrow> error + pyfloat" where
  "duration_seconds self =
     bindE (is_video_or_audio self) (\<lambda>va.
       if va then
         except_ValueError
           (bindE (getitem self ''duration'') (\<lambda>d.
              if d \<noteq> ''N/A'' then of_option (py_float d)
              else
                bindE (call_method self ''get_avg_frame_rate'' get_avg_frame_rate) (\<lambda>fps.
                bindE (call_method self ''frames'' frames) (\<lambda>framenumbers.
                  py_truediv framenumbers fps))))
           (FFProbeError ''None numeric duration'')
       else Inr (Finite 0))"

section \<open>FFProbes3\<close>

text \<open>
  The report object: the three lists \<^verbatim>\<open>FFProbes3.__init__\<close> fills (the other
  attributes stay \<^verbatim>\<open>None\<close>).
\<close>

record FFProbes3 =
  streams :: "FFStream list"
  video :: "FFStream list"
  audio :: "FFStream list"

text \<open>
  One of the two reading loops (lines 48 to 56 and 57 to 65), over the decoded lines of
  a channel. The state is \<^verbatim>\<open>self.streams\<close> and \<^verbatim>\<open>data_lines\<close>.
\<close>

fun read_lines ::
  "FFStream list \<times> string list \<Rightarrow> string list \<Rightarrow> error + (FFStream list \<times> string list)" where
  "read_lines (strs, data_lines) [] = Inr (strs, data_lines)"
| "read_lines (strs, data_lines) (a # rest) =
     (if match_start a then read_lines (strs, []) rest
      else if match_end a then
        bindE (FFStream_init data_lines) (\<lambda>s. read_lines (strs @ [s], []) rest)
      else read_lines (strs, data_lines @ [a]) rest)"

text \<open>
  \<^verbatim>\<open>self.audio.append(a)\<close> and \<^verbatim>\<open>self.video.append(a)\<close> (lines 70 and 72). The three
  lists are ordinary attributes of the report (lines 44 to 46), open to every holder of
  the object: a statement like these two changes them in place, inside the constructor
  or after it.
\<close>

definition audio_append :: "FFProbes3 \<Rightarrow> FFStream \<Rightarrow> FFProbes3" where
  "audio_append self a = self\<lparr>audio := audio self @ [a]\<rparr>"

definition video_append :: "FFProbes3 \<Rightarrow> FFStream \<Rightarrow> FFProbes3" where
  "video_append self a = self\<lparr>video := video self @ [a]\<rparr>"

text \<open>
  The loop of lines 68 to 72 over the elements of \<^verbatim>\<open>self.streams\<close>; the state is the
  report. \<^verbatim>\<open>a.is_audio()\<close> and \<^verbatim>\<open>a.is_video()\<close> are method calls on the stream.
\<close>

fun partition_streams :: "FFProbes3 \<Rightarrow> FFStream list \<Rightarrow> error + FFProbes3" where
  "partition_streams self [] = Inr self"
| "partition_streams self (a # rest) =
     bindE (call_method a ''is_audio'' is_audio) (\<lambda>ia.
       let self1 = (if ia then audio_append self a else self) in
       bindE (call_method a ''is_video'' is_video) (\<lambda>iv.
         partition_streams (if iv then video_append self1 a else self1) rest))"

text \<open>
  The two reading loops one after the other (lines 47 to 67): \<^verbatim>\<open>data_lines\<close> is not
  reset between them, and what it holds at the end is dropped. The arguments are the
  lines that the \<^verbatim>\<open>ffprobe\<close> process wrote to its standard output and to its standard
  error.
\<close>

definition read_streams :: "string list \<Rightarrow> string list \<Rightarrow> error + FFStream list" where
  "read_streams stdout_lines stderr_lines =
     bindE (read_lines ([], []) stdout_lines) (\<lambda>st1.
     bindE (read_lines st1 stderr_lines) (\<lambda>st2. Inr (fst st2)))"

text \<open>
  \<^verbatim>\<open>FFProbes3.__init__\<close> from line 44 on. The checks of the path and of the tool and the
  start of the process (lines 22 to 38) are outside the model.
\<close>

definition FFProbes3_init :: "string list \<Rightarrow> string list \<Rightarrow> error + FFProbes3" where
  "FFProbes3_init stdout_lines stderr_lines =
     bindE (read_streams stdout_lines stderr_lines) (\<lambda>strs.
       partition_streams \<lparr>streams = strs, video = [], audio = []\<rparr> strs)"

section \<open>What the specification calls blocks, pairs and fields\<close>

text \<open>
  The blocks of a line sequence: at each end marker, the lines read since the marker
  before it (start or end), or since the beginning; \<open>data_lines\<close> are the lines pending
  at the start.
\<close>

fun closed_blocks :: "string list \<Rightarrow> string list \<Rightarrow> string list list" where
  "closed_blocks data_lines [] = []"
| "closed_blocks data_lines (a # rest) =
     (if match_start a then closed_blocks [] rest
      else if match_end a then data_lines # closed_blocks [] rest
      else closed_blocks (data_lines @ [a]) rest)"

text \<open>
  The outcome of a sequence of constructor calls made one after the other: the first
  exception, or all the objects.
\<close>

fun all_results :: "(error + 'a) list \<Rightarrow> error + 'a list" where
  "all_results [] = Inr []"
| "all_results (m # ms) = bindE m (\<lambda>x. bindE (all_results ms) (\<lambda>xs. Inr (x # xs)))"

text \<open>
  The number of complete \<^verbatim>\<open>[STREAM]\<close> ... \<^verbatim>\<open>[/STREAM]\<close> pairs: the end markers that close
  a block which a start marker opened; \<open>opened\<close> says whether a block is open.
\<close>

fun complete_pairs :: "bool \<Rightarrow> string list \<Rightarrow> nat" where
  "complete_pairs opened [] = 0"
| "complete_pairs opened (a # rest) =
     (if match_start a then complete_pairs True rest
      else if match_end a then (if opened then 1 else 0) + complete_pairs False rest
      else complete_pairs opened rest)"

text \<open>Every end marker closes a block that a start marker opened.\<close>

fun ends_matched :: "bool \<Rightarrow> string list \<Rightarrow> bool" where
  "ends_matched opened [] = True"
| "ends_matched opened (a # rest) =
     (if match_start a then ends_matched True rest
      else if match_end a then opened \<and> ends_matched False rest
      else ends_matched opened rest)"

text \<open>
  The number that a group of the timestamp pattern stands for: a group that took no part
  in the match (the literal \<^verbatim>\<open>00\<close> matched in its place) counts 0.
\<close>

definition group_val :: "string option \<Rightarrow> int" where
  "group_val g = (case g of None \<Rightarrow> 0 | Some h \<Rightarrow> digits_val h)"

text \<open>
  The key and the value of a line with one \<^verbatim>\<open>=\<close>: what stands before and after the
  \<^verbatim>\<open>=\<close> in the stripped line.
\<close>

definition key_value :: "string \<Rightarrow> string \<times> string" where
  "key_value a =
     (takeWhile (\<lambda>c. c \<noteq> CHR ''='') (py_strip a),
      drop 1 (dropWhile (\<lambda>c. c \<noteq> CHR ''='') (py_strip a)))"

section \<open>A sample report\<close>

text \<open>
  Two blocks on the standard output, a video and an audio stream, after a banner on the
  standard error that ends with an unfinished block.
\<close>

definition sample_stdout :: "string list" where
  "sample_stdout =
     [''[STREAM]'' @ [CHR 0x0A],
      ''codec_type=video'' @ [CHR 0x0A],
      ''width=640'' @ [CHR 0x0A],
      ''[/STREAM]'' @ [CHR 0x0A],
      ''[STREAM]'' @ [CHR 0x0A],
      ''codec_type=audio'' @ [CHR 0x0A],
      ''[/STREAM]'' @ [CHR 0x0A]]"

definition sample_stderr :: "string list" where
  "sample_stderr =
     [''ffprobe version 4.2.4'' @ [CHR 0x0A],
      ''[STREAM]'' @ [CHR 0x0A],
      ''codec_type=subtitle'' @ [CHR 0x0A]]"

definition sample_video :: FFStream where
  "sample_video = map_of [(''width'', ''640''), (''codec_type'', ''video'')]"

definition sample_audio :: FFStream where
  "sample_audio = map_of [(''codec_type'', ''audio'')]"

definition sample_report :: FFProbes3 where
  "sample_report =
     \<lparr>streams = [sample_video, sample_audio], video = [sample_video], audio = [sample_audio]\<rparr>"

text \<open>A frame count of 310 digits: a \<^verbatim>\<open>1\<close> and 309 zeros.\<close>

definition huge_count :: string where
  "huge_count = CHR ''1'' # replicate 309 (CHR ''0'')"

section \<open>Basic facts\<close>

lemma bindE_Inl [simp]: "bindE (Inl e) f = Inl e"
  by (simp add: bindE_def)

lemma bindE_Inr [simp]: "bindE (Inr x) f = f x"
  by (simp add: bindE_def)

lemma except_ValueError_Inr [simp]: "except_ValueError (Inr x) e = Inr x"
  by (simp add: except_ValueError_def)

lemma except_ValueError_Inl [simp]:
  "except_ValueError (Inl e') e = (if e' = ValueError then Inl e else Inl e')"
  by (cases e') (simp_all add: except_ValueError_def)

lemma of_option_simps [simp]:
  "of_option None = Inl ValueError" "of_option (Some x) = Inr x"
  by (simp_all add: of_option_def)

lemma getitem_Some [simp]: "self k = Some v \<Longrightarrow> getitem self k = Inr v"
  by (simp add: getitem_def)

lemma getitem_None [simp]: "self k = None \<Longrightarrow> getitem self k = Inl (KeyError k)"
  by (simp add: getitem_def)

lemma is_audio_present: "self ''codec_type'' = Some ct \<Longrightarrow> is_audio self = Inr (ct = ''audio'')"
  by (auto simp: is_audio_def)

lemma is_video_present: "self ''codec_type'' = Some ct \<Longrightarrow> is_video self = Inr (ct = ''video'')"
  by (auto simp: is_video_def)

lemma is_subtitle_present:
  "self ''codec_type'' = Some ct \<Longrightarrow> is_subtitle self = Inr (ct = ''subtitle'')"
  by (auto simp: is_subtitle_def)

section \<open>Classification\<close>

text \<open>
  Claim C4 says that an absent \<^verbatim>\<open>codec_type\<close> yields "Other" and that the classifier
  never raises. On a stream with no field at all the three predicates raise
  \<^verbatim>\<open>KeyError\<close>.
\<close>

theorem classification_absent_raises:
  "is_audio (map_of []) = Inl (KeyError ''codec_type'')
   \<and> is_video (map_of []) = Inl (KeyError ''codec_type'')
   \<and> is_subtitle (map_of []) = Inl (KeyError ''codec_type'')"
  by (simp add: is_audio_def is_video_def is_subtitle_def)

text \<open>
  Claim C4, amended: when \<^verbatim>\<open>codec_type\<close> is present with value \<open>ct\<close>, the three
  predicates return whether \<open>ct\<close> is exactly \<^verbatim>\<open>audio\<close>, \<^verbatim>\<open>video\<close>, \<^verbatim>\<open>subtitle\<close>, no
  other field is read, and exactly one of the four outcomes (audio, video, subtitle,
  none of them) holds; when \<^verbatim>\<open>codec_type\<close> is absent each predicate raises
  \<^verbatim>\<open>KeyError\<close>.
\<close>

theorem classification_by_codec_type:
  "(\<forall>ct. self ''codec_type'' = Some ct \<longrightarrow>
      is_audio self = Inr (ct = ''audio'')
      \<and> is_video self = Inr (ct = ''video'')
      \<and> is_subtitle self = Inr (ct = ''subtitle'')
      \<and> ((is_audio self = Inr True \<and> is_video self = Inr False \<and> is_subtitle self = Inr False)
         \<or> (is_audio self = Inr False \<and> is_video self = Inr True \<and> is_subtitle self = Inr False)
         \<or> (is_audio self = Inr False \<and> is_video self = Inr False \<and> is_subtitle self = Inr True)
         \<or> (is_audio self = Inr False \<and> is_video self = Inr False \<and> is_subtitle self = Inr False)))
   \<and> (self ''codec_type'' = None \<longrightarrow>
      is_audio self = Inl (KeyError ''codec_type'')
      \<and> is_video self = Inl (KeyError ''codec_type'')
      \<and> is_subtitle self = Inl (KeyError ''codec_type''))"
proof (intro conjI allI impI)
  fix ct
  assume p: "self ''codec_type'' = Some ct"
  show a: "is_audio self = Inr (ct = ''audio'')" by (rule is_audio_present [of self ct, OF p])
  show v: "is_video self = Inr (ct = ''video'')" by (rule is_video_present [of self ct, OF p])
  show s: "is_subtitle self = Inr (ct = ''subtitle'')" by (rule is_subtitle_present [of self ct, OF p])
  show "(is_audio self = Inr True \<and> is_video self = Inr False \<and> is_subtitle self = Inr False)
         \<or> (is_audio self = Inr False \<and> is_video self = Inr True \<and> is_subtitle self = Inr False)
         \<or> (is_audio self = Inr False \<and> is_video self = Inr False \<and> is_subtitle self = Inr True)
         \<or> (is_audio self = Inr False \<and> is_video self = Inr False \<and> is_subtitle self = Inr False)"
    unfolding a v s by auto
next
  assume "self ''codec_type'' = None"
  then show "is_audio self = Inl (KeyError ''codec_type'')"
    "is_video self = Inl (KeyError ''codec_type'')"
    "is_subtitle self = Inl (KeyError ''codec_type'')"
    by (simp_all add: is_audio_def is_video_def is_subtitle_def)
qed

theorem classification_by_codec_type_witness:
  "is_audio (map_of [(''codec_type'', ''audio'')]) = Inr True
   \<and> is_video (map_of [(''codec_type'', ''audio'')]) = Inr False
   \<and> is_subtitle (map_of [(''codec_type'', ''audio'')]) = Inr False
   \<and> is_video (map_of [(''codec_type'', ''video'')]) = Inr True
   \<and> is_subtitle (map_of [(''codec_type'', ''subtitle'')]) = Inr True
   \<and> is_audio (map_of [(''codec_type'', ''data'')]) = Inr False
   \<and> is_video (map_of [(''codec_type'', ''data'')]) = Inr False
   \<and> is_subtitle (map_of [(''codec_type'', ''data'')]) = Inr False
   \<and> is_video (map_of [(''width'', ''640'')]) = Inl (KeyError ''codec_type'')"
  using classification_by_codec_type [of "map_of [(''codec_type'', ''audio'')]"]
    classification_by_codec_type [of "map_of [(''codec_type'', ''video'')]"]
    classification_by_codec_type [of "map_of [(''codec_type'', ''subtitle'')]"]
    classification_by_codec_type [of "map_of [(''codec_type'', ''data'')]"]
    classification_by_codec_type [of "map_of [(''width'', ''640'')]"]
  by simp

section \<open>Method calls on a stream\<close>

lemma call_method_None [simp]: "self m = None \<Longrightarrow> call_method self m body = body self"
  by (simp add: call_method_def)

lemma call_method_Some [simp]: "self m = Some v \<Longrightarrow> call_method self m body = Inl TypeError"
  by (simp add: call_method_def)

lemma call_method_cases:
  "call_method self m body = (if self m = None then body self else Inl TypeError)"
  by (cases "self m") simp_all

lemma is_video_or_audio_cases:
  assumes "self ''codec_type'' = Some ct"
  shows "is_video_or_audio self =
           (if self ''is_video'' \<noteq> None then Inl TypeError
            else if ct = ''video'' then Inr True
            else if self ''is_audio'' \<noteq> None then Inl TypeError
            else Inr (ct = ''audio''))"
  using assms
  by (auto simp: is_video_or_audio_def is_video_present [of self ct] is_audio_present [of self ct])

lemma is_video_or_audio_plain:
  assumes "self ''codec_type'' = Some ct" and "ct = ''audio'' \<or> ct = ''video''"
    and "self ''is_video'' = None" and "ct = ''audio'' \<longrightarrow> self ''is_audio'' = None"
  shows "is_video_or_audio self = Inr True"
  using assms by (auto simp: is_video_or_audio_cases [of self ct])

lemma is_video_or_audio_shadowed:
  assumes "self ''codec_type'' = Some ct" and "ct = ''audio'' \<or> ct = ''video''"
    and "self ''is_video'' \<noteq> None \<or> (ct = ''audio'' \<and> self ''is_audio'' \<noteq> None)"
  shows "is_video_or_audio self = Inl TypeError"
  using assms by (auto simp: is_video_or_audio_cases [of self ct])

section \<open>Frame count\<close>

text \<open>
  Claim C7 says that \<^verbatim>\<open>frames()\<close> returns \<^verbatim>\<open>int(nb_frames)\<close> regardless of every
  other field. A field named \<^verbatim>\<open>is_video\<close> shadows the method that line 173 calls, and
  \<^verbatim>\<open>frames()\<close> raises \<^verbatim>\<open>TypeError\<close>.
\<close>

theorem frames_field_shadows_method:
  "frames (map_of [(''codec_type'', ''video''), (''nb_frames'', ''120''), (''is_video'', ''1'')])
     = Inl TypeError"
  by (simp add: frames_def is_video_or_audio_def)

lemma frames_nb_frames:
  assumes "self ''codec_type'' = Some ct" and "ct = ''audio'' \<or> ct = ''video''"
    and "self ''is_video'' = None" and "ct = ''audio'' \<longrightarrow> self ''is_audio'' = None"
    and "self ''nb_frames'' = Some nb" and "nb \<noteq> ''N/A''"
  shows "frames self = (case py_int nb of
                          Some n \<Rightarrow> Inr (PyInt n)
                        | None \<Rightarrow> Inl (FFProbeError ''None integer frame count''))"
  using assms(5,6)
  by (auto simp: frames_def is_video_or_audio_plain [of self ct, OF assms(1-4)] split: option.splits)

lemma frames_shadowed:
  assumes "self ''codec_type'' = Some ct" and "ct = ''audio'' \<or> ct = ''video''"
    and "self ''is_video'' \<noteq> None \<or> (ct = ''audio'' \<and> self ''is_audio'' \<noteq> None)"
  shows "frames self = Inl TypeError"
  by (simp add: frames_def is_video_or_audio_shadowed [of self ct, OF assms])

text \<open>
  Claim C7, amended: on an audio or video stream whose \<^verbatim>\<open>nb_frames\<close> is present and
  not \<^verbatim>\<open>N/A\<close>, and which has no field named \<^verbatim>\<open>is_video\<close> (nor, when it is an audio
  stream, \<^verbatim>\<open>is_audio\<close>), \<^verbatim>\<open>frames()\<close> returns \<^verbatim>\<open>int(nb_frames)\<close> whatever the
  other fields hold, and raises \<^verbatim>\<open>FFProbeError('None integer frame count')\<close> when
  \<^verbatim>\<open>int()\<close> rejects the value. With a field named \<^verbatim>\<open>is_video\<close>, or on an audio stream
  a field named \<^verbatim>\<open>is_audio\<close>, it raises \<^verbatim>\<open>TypeError\<close>.
\<close>

theorem frames_reported_directly:
  assumes "self ''codec_type'' = Some ct" and "ct = ''audio'' \<or> ct = ''video''"
    and "self ''nb_frames'' = Some nb" and "nb \<noteq> ''N/A''"
  shows "(self ''is_video'' = None \<and> (ct = ''audio'' \<longrightarrow> self ''is_audio'' = None) \<longrightarrow>
            (\<forall>n. py_int nb = Some n \<longrightarrow> frames self = Inr (PyInt n))
            \<and> (py_int nb = None \<longrightarrow> frames self = Inl (FFProbeError ''None integer frame count'')))
       \<and> (self ''is_video'' \<noteq> None \<longrightarrow> frames self = Inl TypeError)
       \<and> (ct = ''audio'' \<and> self ''is_audio'' \<noteq> None \<longrightarrow> frames self = Inl TypeError)"
proof (intro conjI impI)
  assume a: "self ''is_video'' = None \<and> (ct = ''audio'' \<longrightarrow> self ''is_audio'' = None)"
  have "frames self = (case py_int nb of
                          Some n \<Rightarrow> Inr (PyInt n)
                        | None \<Rightarrow> Inl (FFProbeError ''None integer frame count''))"
    using a assms frames_nb_frames [of self ct nb] by simp
  then show "\<forall>n. py_int nb = Some n \<longrightarrow> frames self = Inr (PyInt n)"
    and "py_int nb = None \<Longrightarrow> frames self = Inl (FFProbeError ''None integer frame count'')"
    by simp_all
next
  assume "self ''is_video'' \<noteq> None"
  then show "frames self = Inl TypeError"
    using assms(1,2) frames_shadowed [of self ct] by simp
next
  assume "ct = ''audio'' \<and> self ''is_audio'' \<noteq> None"
  then show "frames self = Inl TypeError"
    using assms(1,2) frames_shadowed [of self ct] by simp
qed

lemma py_int_120: "py_int ''120'' = Some 120"
  by code_simp

lemma py_int_12x: "py_int ''12x'' = None"
  by code_simp

theorem frames_reported_directly_witness:
  "py_int ''120'' = Some 120
   \<and> frames (map_of [(''codec_type'', ''video''), (''nb_frames'', ''120''),
        (''TAG:DURATION'', ''00:03:50.070000000''), (''r_frame_rate'', ''x''),
        (''is_audio'', ''1'')]) = Inr (PyInt 120)
   \<and> py_int ''12x'' = None
   \<and> frames (map_of [(''codec_type'', ''audio''), (''nb_frames'', ''12x'')])
       = Inl (FFProbeError ''None integer frame count'')
   \<and> frames (map_of [(''codec_type'', ''audio''), (''nb_frames'', ''120''), (''is_audio'', ''1'')])
       = Inl TypeError
   \<and> frames (map_of [(''codec_type'', ''audio''), (''nb_frames'', ''120''), (''is_video'', '''')])
       = Inl TypeError"
  using
    frames_reported_directly [of "map_of [(''codec_type'', ''video''), (''nb_frames'', ''120''),
        (''TAG:DURATION'', ''00:03:50.070000000''), (''r_frame_rate'', ''x''),
        (''is_audio'', ''1'')]" "''video''" "''120''"]
    frames_reported_directly [of "map_of [(''codec_type'', ''audio''), (''nb_frames'', ''12x'')]"
        "''audio''" "''12x''"]
    frames_reported_directly [of
        "map_of [(''codec_type'', ''audio''), (''nb_frames'', ''120''), (''is_audio'', ''1'')]"
        "''audio''" "''120''"]
    frames_reported_directly [of
        "map_of [(''codec_type'', ''audio''), (''nb_frames'', ''120''), (''is_video'', '''')]"
        "''audio''" "''120''"]
  by (simp add: py_int_120 py_int_12x)

text \<open>
  Claim C10 says that \<^verbatim>\<open>frames()\<close> returns 0 without raising any error when
  \<^verbatim>\<open>nb_frames\<close> is \<^verbatim>\<open>N/A\<close> and \<^verbatim>\<open>TAG:DURATION\<close> does not match the timestamp pattern.
  On such a video stream with a field named \<^verbatim>\<open>is_video\<close> it raises \<^verbatim>\<open>TypeError\<close>.
\<close>

theorem frames_unmatched_shadowed:
  "search_duration ''3:50'' = None
   \<and> frames (map_of [(''codec_type'', ''video''), (''nb_frames'', ''N/A''),
        (''TAG:DURATION'', ''3:50''), (''is_video'', ''1'')]) = Inl TypeError"
  by (simp add: frames_def is_video_or_audio_def search_duration_def two_digits_def is_digit_def)

text \<open>
  Claim C10, amended: on an audio or video stream with \<^verbatim>\<open>nb_frames\<close> equal to \<^verbatim>\<open>N/A\<close>
  and a non-empty \<^verbatim>\<open>TAG:DURATION\<close> that the timestamp pattern does not match, and with
  no field named \<^verbatim>\<open>is_video\<close> (nor, when it is an audio stream, \<^verbatim>\<open>is_audio\<close>),
  \<^verbatim>\<open>frames()\<close> returns the integer 0 and raises nothing. With a field named
  \<^verbatim>\<open>is_video\<close>, or on an audio stream a field named \<^verbatim>\<open>is_audio\<close>, it raises
  \<^verbatim>\<open>TypeError\<close>.
\<close>

theorem frames_unmatched_duration:
  assumes "self ''codec_type'' = Some ct" and "ct = ''audio'' \<or> ct = ''video''"
    and "self ''nb_frames'' = Some ''N/A''"
    and "self ''TAG:DURATION'' = Some td" and "td \<noteq> []"
    and "search_duration td = None"
  shows "(self ''is_video'' = None \<and> (ct = ''audio'' \<longrightarrow> self ''is_audio'' = None) \<longrightarrow>
            frames self = Inr (PyInt 0))
       \<and> (self ''is_video'' \<noteq> None \<longrightarrow> frames self = Inl TypeError)
       \<and> (ct = ''audio'' \<and> self ''is_audio'' \<noteq> None \<longrightarrow> frames self = Inl TypeError)"
proof (intro conjI impI)
  assume a: "self ''is_video'' = None \<and> (ct = ''audio'' \<longrightarrow> self ''is_audio'' = None)"
  have "is_video_or_audio self = Inr True"
    using a assms(1,2) is_video_or_audio_plain [of self ct] by simp
  then show "frames self = Inr (PyInt 0)"
    using assms(3-6) by (simp add: frames_def)
next
  assume "self ''is_video'' \<noteq> None"
  then show "frames self = Inl TypeError"
    using assms(1,2) frames_shadowed [of self ct] by simp
next
  assume "ct = ''audio'' \<and> self ''is_audio'' \<noteq> None"
  then show "frames self = Inl TypeError"
    using assms(1,2) frames_shadowed [of self ct] by simp
qed

lemma search_duration_3_50: "search_duration ''3:50'' = None"
  by code_simp

theorem frames_unmatched_duration_witness:
  "search_duration ''3:50'' = None
   \<and> frames (map_of [(''codec_type'', ''video''), (''nb_frames'', ''N/A''),
        (''TAG:DURATION'', ''3:50'')]) = Inr (PyInt 0)
   \<and> frames (map_of [(''codec_type'', ''audio''), (''nb_frames'', ''N/A''),
        (''TAG:DURATION'', ''3:50''), (''is_audio'', ''x'')]) = Inl TypeError"
  using
    frames_unmatched_duration [of
      "map_of [(''codec_type'', ''video''), (''nb_frames'', ''N/A''), (''TAG:DURATION'', ''3:50'')]"
      "''video''" "''3:50''"]
    frames_unmatched_duration [of
      "map_of [(''codec_type'', ''audio''), (''nb_frames'', ''N/A''), (''TAG:DURATION'', ''3:50''),
         (''is_audio'', ''x'')]"
      "''audio''" "''3:50''"]
  by (simp add: search_duration_3_50)

section \<open>Frame size\<close>

text \<open>
  Claim C8 says that \<^verbatim>\<open>frame_size()\<close> returns "absent" on a video stream with a
  missing \<^verbatim>\<open>width\<close> or \<^verbatim>\<open>height\<close>. With \<^verbatim>\<open>width\<close> missing it raises \<^verbatim>\<open>KeyError\<close>.
\<close>

theorem frame_size_missing_width:
  "frame_size (map_of [(''codec_type'', ''video''), (''height'', ''480'')])
     = Inl (KeyError ''width'')"
  by (simp add: frame_size_def is_video_def)

lemma frame_size_shadowed:
  assumes "self ''is_video'' \<noteq> None"
  shows "frame_size self = Inl TypeError"
  using assms by (auto simp: frame_size_def)

lemma frame_size_no_codec_type:
  assumes "self ''is_video'' = None" and "self ''codec_type'' = None"
  shows "frame_size self = Inl (KeyError ''codec_type'')"
  using assms by (simp add: frame_size_def is_video_def)

lemma frame_size_not_video:
  assumes "self ''is_video'' = None" and "self ''codec_type'' = Some ct" and "ct \<noteq> ''video''"
  shows "frame_size self = Inr None"
  using assms by (simp add: frame_size_def is_video_present [of self ct])

lemma frame_size_video:
  assumes "self ''is_video'' = None" and "self ''codec_type'' = Some ''video''"
    and "self ''width'' = Some w" and "self ''height'' = Some h"
  shows "frame_size self =
           (if w = [] \<or> h = [] then Inr None
            else (case (py_int w, py_int h) of
                    (Some a, Some b) \<Rightarrow> Inr (Some (a, b))
                  | _ \<Rightarrow> Inl (FFProbeError (''None integer size '' @ w @ '':'' @ h))))"
  using assms
  by (auto simp: frame_size_def is_video_present [of self "''video''"] split: option.splits)

lemma frame_size_video_missing:
  assumes "self ''is_video'' = None" and "self ''codec_type'' = Some ''video''"
  shows "self ''width'' = None \<Longrightarrow> frame_size self = Inl (KeyError ''width'')"
    and "self ''width'' = Some w \<Longrightarrow> self ''height'' = None \<Longrightarrow>
         frame_size self = Inl (KeyError ''height'')"
  using assms by (simp_all add: frame_size_def is_video_present [of self "''video''"])

text \<open>
  Claim C8, amended: on a stream with no field named \<^verbatim>\<open>is_video\<close> and with
  \<^verbatim>\<open>codec_type\<close> present, \<^verbatim>\<open>frame_size()\<close> returns \<^verbatim>\<open>None\<close> when the stream is not
  video, whatever its other fields (nothing is parsed); on a video stream with both
  \<^verbatim>\<open>width\<close> and \<^verbatim>\<open>height\<close> present it returns \<^verbatim>\<open>None\<close> when either is the empty
  string, the pair of integers when \<^verbatim>\<open>int()\<close> accepts both, and raises
  \<^verbatim>\<open>FFProbeError\<close> otherwise; on a video stream a missing \<^verbatim>\<open>width\<close> or \<^verbatim>\<open>height\<close>
  raises \<^verbatim>\<open>KeyError\<close>. A missing \<^verbatim>\<open>codec_type\<close> raises \<^verbatim>\<open>KeyError\<close>, and a field
  named \<^verbatim>\<open>is_video\<close> shadows the method called at line 146 and raises \<^verbatim>\<open>TypeError\<close>,
  whatever the other fields hold.
\<close>

theorem frame_size_cases:
  "(self ''is_video'' \<noteq> None \<longrightarrow> frame_size self = Inl TypeError)
   \<and> (self ''is_video'' = None \<longrightarrow>
        (self ''codec_type'' = None \<longrightarrow> frame_size self = Inl (KeyError ''codec_type''))
        \<and> (\<forall>ct. self ''codec_type'' = Some ct \<longrightarrow>
              (ct \<noteq> ''video'' \<longrightarrow> frame_size self = Inr None)
              \<and> (ct = ''video'' \<longrightarrow>
                   (\<forall>w h. self ''width'' = Some w \<longrightarrow> self ''height'' = Some h \<longrightarrow>
                      frame_size self =
                        (if w = [] \<or> h = [] then Inr None
                         else (case (py_int w, py_int h) of
                                 (Some a, Some b) \<Rightarrow> Inr (Some (a, b))
                               | _ \<Rightarrow> Inl (FFProbeError (''None integer size '' @ w @ '':'' @ h)))))
                   \<and> (self ''width'' = None \<longrightarrow> frame_size self = Inl (KeyError ''width''))
                   \<and> (\<forall>w. self ''width'' = Some w \<longrightarrow> self ''height'' = None \<longrightarrow>
                        frame_size self = Inl (KeyError ''height'')))))"
proof (intro conjI impI allI)
  assume "self ''is_video'' \<noteq> None"
  then show "frame_size self = Inl TypeError"
    by (rule frame_size_shadowed)
next
  assume "self ''is_video'' = None" "self ''codec_type'' = None"
  then show "frame_size self = Inl (KeyError ''codec_type'')"
    by (rule frame_size_no_codec_type)
next
  fix ct
  assume "self ''is_video'' = None" "self ''codec_type'' = Some ct" "ct \<noteq> ''video''"
  then show "frame_size self = Inr None"
    using frame_size_not_video [of self ct] by simp
next
  fix ct w h
  assume "self ''is_video'' = None" "self ''codec_type'' = Some ct" "ct = ''video''"
    "self ''width'' = Some w" "self ''height'' = Some h"
  then show "frame_size self =
                 (if w = [] \<or> h = [] then Inr None
                  else (case (py_int w, py_int h) of
                          (Some a, Some b) \<Rightarrow> Inr (Some (a, b))
                        | _ \<Rightarrow> Inl (FFProbeError (''None integer size '' @ w @ '':'' @ h))))"
    using frame_size_video [of self w h] by simp
next
  fix ct
  assume "self ''is_video'' = None" "self ''codec_type'' = Some ct" "ct = ''video''"
    "self ''width'' = None"
  then show "frame_size self = Inl (KeyError ''width'')"
    using frame_size_video_missing(1) [of self] by simp
next
  fix ct w
  assume "self ''is_video'' = None" "self ''codec_type'' = Some ct" "ct = ''video''"
    "self ''width'' = Some w" "self ''height'' = None"
  then show "frame_size self = Inl (KeyError ''height'')"
    using frame_size_video_missing(2) [of self w] by simp
qed

lemma py_int_640: "py_int ''640'' = Some 640"
  by code_simp

lemma py_int_480: "py_int ''480'' = Some 480"
  by code_simp

lemma py_int_4_8: "py_int ''4.8'' = None"
  by code_simp

theorem frame_size_cases_witness:
  "frame_size (map_of [(''codec_type'', ''audio''), (''width'', ''x''), (''height'', ''y'')]) = Inr None
   \<and> frame_size (map_of [(''codec_type'', ''video''), (''width'', ''640''), (''height'', ''480'')])
       = Inr (Some (640, 480))
   \<and> frame_size (map_of [(''codec_type'', ''video''), (''width'', ''640''), (''height'', ''4.8'')])
       = Inl (FFProbeError ''None integer size 640:4.8'')
   \<and> frame_size (map_of [(''codec_type'', ''video''), (''width'', ''''), (''height'', ''4.8'')])
       = Inr None
   \<and> frame_size (map_of [(''codec_type'', ''video''), (''width'', ''640'')])
       = Inl (KeyError ''height'')
   \<and> frame_size (map_of [(''width'', ''640''), (''height'', ''480'')])
       = Inl (KeyError ''codec_type'')
   \<and> frame_size (map_of [(''codec_type'', ''audio''), (''is_video'', ''1'')]) = Inl TypeError"
  using
    frame_size_cases [of "map_of [(''codec_type'', ''audio''), (''width'', ''x''), (''height'', ''y'')]"]
    frame_size_cases [of "map_of [(''codec_type'', ''video''), (''width'', ''640''), (''height'', ''480'')]"]
    frame_size_cases [of "map_of [(''codec_type'', ''video''), (''width'', ''640''), (''height'', ''4.8'')]"]
    frame_size_cases [of "map_of [(''codec_type'', ''video''), (''width'', ''''), (''height'', ''4.8'')]"]
    frame_size_cases [of "map_of [(''codec_type'', ''video''), (''width'', ''640'')]"]
    frame_size_cases [of "map_of [(''width'', ''640''), (''height'', ''480'')]"]
    frame_size_cases [of "map_of [(''codec_type'', ''audio''), (''is_video'', ''1'')]"]
  by (simp add: py_int_640 py_int_480 py_int_4_8)

section \<open>The report and its views\<close>

lemma streams_audio_append [simp]: "streams (audio_append r a) = streams r"
  and video_audio_append [simp]: "video (audio_append r a) = video r"
  and audio_audio_append [simp]: "audio (audio_append r a) = audio r @ [a]"
  by (simp_all add: audio_append_def)

lemma streams_video_append [simp]: "streams (video_append r a) = streams r"
  and video_video_append [simp]: "video (video_append r a) = video r @ [a]"
  and audio_video_append [simp]: "audio (video_append r a) = audio r"
  by (simp_all add: video_append_def)

lemma partition_streams_filter:
  "partition_streams r xs = Inr r' \<Longrightarrow>
   streams r' = streams r
   \<and> audio r' = audio r @ filter (\<lambda>s. is_audio s = Inr True) xs
   \<and> video r' = video r @ filter (\<lambda>s. is_video s = Inr True) xs
   \<and> (\<forall>s \<in> set xs. s ''is_audio'' = None \<and> s ''is_video'' = None \<and> s ''codec_type'' \<noteq> None)"
proof (induction xs arbitrary: r)
  case Nil
  then show ?case by simp
next
  case (Cons a xs)
  from Cons.prems have na: "a ''is_audio'' = None"
    by (cases "a ''is_audio''") simp_all
  from Cons.prems na obtain ia where ia: "is_audio a = Inr ia"
    by (cases "is_audio a") simp_all
  from Cons.prems na ia have nv: "a ''is_video'' = None"
    by (cases "a ''is_video''") (simp_all add: Let_def)
  from Cons.prems na ia nv obtain iv where iv: "is_video a = Inr iv"
    by (cases "is_video a") (simp_all add: Let_def)
  from ia have ct: "a ''codec_type'' \<noteq> None"
    by (auto simp: is_audio_def getitem_def split: option.splits)
  from Cons.prems na ia nv iv have rest:
    "partition_streams
       (if iv then video_append (if ia then audio_append r a else r) a
        else (if ia then audio_append r a else r)) xs = Inr r'"
    by (simp add: Let_def)
  from Cons.IH [OF rest] ia iv na nv ct show ?case by auto
qed

text \<open>
  Claim C9 says that none of the three sequences changes after construction. They are
  the list attributes that lines 44 to 46 create, and nothing protects them: after the
  constructor has returned the sample report, the statement of line 72 run on it with
  the audio stream changes the video view and leaves in it a stream that is not video.
\<close>

theorem report_lists_change:
  "FFProbes3_init sample_stdout sample_stderr = Inr sample_report
   \<and> video sample_report = [sample_video]
   \<and> video (video_append sample_report sample_audio) = [sample_video, sample_audio]
   \<and> is_video sample_audio = Inr False"
  by (simp add: FFProbes3_init_def read_streams_def sample_stdout_def sample_stderr_def
      sample_report_def sample_video_def sample_audio_def match_start_def match_end_def
      FFStream_init_def py_strip_def py_isspace_def is_audio_def is_video_def
      audio_append_def video_append_def)

text \<open>
  Claim C9, amended: in the report that \<^verbatim>\<open>FFProbes3.__init__\<close> returns, \<^verbatim>\<open>streams\<close> is
  the sequence of streams read from the two channels, and the video view and the audio
  view are that sequence filtered by \<^verbatim>\<open>is_video()\<close> and by \<^verbatim>\<open>is_audio()\<close>, computed
  once by the constructor: they are subsequences of it, every element of a view
  satisfies its predicate, and both are contained in \<^verbatim>\<open>streams\<close>. The constructor
  returns only if every stream has a \<^verbatim>\<open>codec_type\<close> and no field named \<^verbatim>\<open>is_audio\<close>
  or \<^verbatim>\<open>is_video\<close>. Nothing is said about the lists after construction.
\<close>

theorem report_views:
  assumes "FFProbes3_init stdout_lines stderr_lines = Inr r"
  shows "read_streams stdout_lines stderr_lines = Inr (streams r)
       \<and> video r = filter (\<lambda>s. is_video s = Inr True) (streams r)
       \<and> audio r = filter (\<lambda>s. is_audio s = Inr True) (streams r)
       \<and> subseq (video r) (streams r) \<and> subseq (audio r) (streams r)
       \<and> set (video r) \<union> set (audio r) \<subseteq> set (streams r)
       \<and> (\<forall>s \<in> set (video r). is_video s = Inr True)
       \<and> (\<forall>s \<in> set (audio r). is_audio s = Inr True)
       \<and> (\<forall>s \<in> set (streams r).
            s ''is_audio'' = None \<and> s ''is_video'' = None \<and> s ''codec_type'' \<noteq> None)"
proof -
  from assms obtain strs where
    rd: "read_streams stdout_lines stderr_lines = Inr strs"
    and p: "partition_streams \<lparr>streams = strs, video = [], audio = []\<rparr> strs = Inr r"
    by (cases "read_streams stdout_lines stderr_lines") (simp_all add: FFProbes3_init_def)
  from partition_streams_filter [OF p] have
    s: "streams r = strs" and
    a: "audio r = filter (\<lambda>s. is_audio s = Inr True) (streams r)" and
    v: "video r = filter (\<lambda>s. is_video s = Inr True) (streams r)" and
    n: "\<forall>s \<in> set (streams r).
          s ''is_audio'' = None \<and> s ''is_video'' = None \<and> s ''codec_type'' \<noteq> None"
    by simp_all
  have 1: "read_streams stdout_lines stderr_lines = Inr (streams r)"
    by (simp add: rd s)
  have 2: "subseq (filter (\<lambda>s. is_video s = Inr True) (streams r)) (streams r)"
    "subseq (filter (\<lambda>s. is_audio s = Inr True) (streams r)) (streams r)"
    by simp_all
  show ?thesis
    using 1 n 2 unfolding v a by auto
qed

lemma sample_init: "FFProbes3_init sample_stdout sample_stderr = Inr sample_report"
  by (simp add: FFProbes3_init_def read_streams_def sample_stdout_def sample_stderr_def
      sample_report_def sample_video_def sample_audio_def match_start_def match_end_def
      FFStream_init_def py_strip_def py_isspace_def is_audio_def is_video_def
      audio_append_def video_append_def)

theorem report_views_witness:
  "FFProbes3_init sample_stdout sample_stderr = Inr sample_report
   \<and> read_streams sample_stdout sample_stderr = Inr [sample_video, sample_audio]
   \<and> video sample_report = filter (\<lambda>s. is_video s = Inr True) (streams sample_report)
   \<and> audio sample_report = filter (\<lambda>s. is_audio s = Inr True) (streams sample_report)
   \<and> set (video sample_report) \<union> set (audio sample_report) \<subseteq> set (streams sample_report)
   \<and> video sample_report = [sample_video] \<and> audio sample_report = [sample_audio]"
  using report_views [OF sample_init] sample_init by (simp add: sample_report_def)

section \<open>Segmenting the lines into streams\<close>

lemma bindE_assoc: "bindE (bindE m f) g = bindE m (\<lambda>x. bindE (f x) g)"
  by (cases m) simp_all

lemma match_end_not_start: "match_end a \<Longrightarrow> \<not> match_start a"
proof
  assume e: "match_end a" and s: "match_start a"
  have "take 8 a = take 8 (take 9 a)" by simp
  with e s show False by (simp add: match_end_def match_start_def)
qed

lemma read_lines_append:
  "read_lines st (xs @ ys) = bindE (read_lines st xs) (\<lambda>st'. read_lines st' ys)"
proof (induction xs arbitrary: st)
  case Nil
  then show ?case by (cases st) simp
next
  case (Cons a xs)
  then show ?case by (cases st) (simp add: bindE_assoc)
qed

lemma read_lines_blocks:
  "bindE (read_lines (strs, dl) lines) (\<lambda>st. Inr (fst st))
   = bindE (all_results (map FFStream_init (closed_blocks dl lines))) (\<lambda>new. Inr (strs @ new))"
proof (induction lines arbitrary: strs dl)
  case Nil
  then show ?case by simp
next
  case (Cons a rest)
  show ?case
  proof (cases "match_start a")
    case True
    then show ?thesis by (simp add: Cons.IH)
  next
    case False
    show ?thesis
    proof (cases "match_end a")
      case True
      show ?thesis
      proof (cases "FFStream_init dl")
        case (Inl e)
        with True False show ?thesis by simp
      next
        case (Inr s)
        have "bindE (read_lines (strs @ [s], []) rest) (\<lambda>st. Inr (fst st))
              = bindE (all_results (map FFStream_init (closed_blocks [] rest)))
                  (\<lambda>new. Inr ((strs @ [s]) @ new))"
          by (rule Cons.IH)
        with True False Inr show ?thesis
          by (cases "all_results (map FFStream_init (closed_blocks [] rest))") simp_all
      qed
    next
      case no_end: False
      with False show ?thesis by (simp add: Cons.IH)
    qed
  qed
qed

lemma read_streams_blocks:
  "read_streams stdout_lines stderr_lines
   = all_results (map FFStream_init (closed_blocks [] (stdout_lines @ stderr_lines)))"
proof -
  have "read_streams stdout_lines stderr_lines
        = bindE (read_lines ([], []) (stdout_lines @ stderr_lines)) (\<lambda>st. Inr (fst st))"
    by (simp add: read_streams_def read_lines_append bindE_assoc)
  also have "\<dots> = bindE (all_results (map FFStream_init
                      (closed_blocks [] (stdout_lines @ stderr_lines)))) (\<lambda>new. Inr ([] @ new))"
    by (rule read_lines_blocks)
  also have "\<dots> = all_results (map FFStream_init (closed_blocks [] (stdout_lines @ stderr_lines)))"
    by (cases "all_results (map FFStream_init (closed_blocks [] (stdout_lines @ stderr_lines)))")
      simp_all
  finally show ?thesis .
qed

lemma length_all_results: "all_results ms = Inr xs \<Longrightarrow> length xs = length ms"
proof (induction ms arbitrary: xs)
  case Nil
  then show ?case by simp
next
  case (Cons m ms)
  then show ?case
    by (cases m; cases "all_results ms") auto
qed

lemma all_results_map: "all_results ms = Inr xs \<Longrightarrow> ms = map Inr xs"
proof (induction ms arbitrary: xs)
  case Nil
  then show ?case by simp
next
  case (Cons m ms)
  then show ?case
    by (cases m; cases "all_results ms") auto
qed

lemma length_closed_blocks:
  "length (closed_blocks dl lines) = length (filter match_end lines)"
  by (induction lines arbitrary: dl) (auto dest: match_end_not_start)

lemma complete_pairs_matched:
  "ends_matched opened lines \<Longrightarrow>
   complete_pairs opened lines = length (filter match_end lines)"
  by (induction lines arbitrary: opened) (auto dest: match_end_not_start)

lemma closed_blocks_no_end:
  "\<forall>a \<in> set tail. \<not> match_end a \<Longrightarrow> closed_blocks dl (xs @ tail) = closed_blocks dl xs"
proof (induction xs arbitrary: dl)
  case Nil
  then show ?case by (induction tail arbitrary: dl) auto
next
  case (Cons a xs)
  then show ?case by auto
qed

text \<open>
  Claim C5 says that the segmenter produces one field store per complete
  \<^verbatim>\<open>[STREAM]\<close> ... \<^verbatim>\<open>[/STREAM]\<close> pair, for every line sequence. An end marker that
  no start marker precedes closes a block as well: the two lines below hold no complete
  pair and give one stream. And a line with no \<^verbatim>\<open>=\<close> inside a pair makes the
  constructor of the stream, and with it the segmenter, raise \<^verbatim>\<open>ValueError\<close>.
\<close>

theorem stray_end_marker_builds_stream:
  "read_streams [''codec_type=video'', ''[/STREAM]''] []
     = Inr [map_of [(''codec_type'', ''video'')]]
   \<and> complete_pairs False [''codec_type=video'', ''[/STREAM]''] = 0
   \<and> complete_pairs False [''[STREAM]'', ''video'', ''[/STREAM]''] = 1
   \<and> read_streams [''[STREAM]'', ''video'', ''[/STREAM]''] [] = Inl ValueError"
  by (simp add: read_streams_def match_start_def match_end_def FFStream_init_def py_strip_def
      py_isspace_def)

text \<open>
  Claim C5, amended: the segmenter makes one constructor call per end marker, in the
  order of the end markers across the standard output followed by the standard error,
  each on the lines read since the marker before it (start or end) or since the
  beginning; it returns the streams so built, one per end marker, or raises the first
  exception of a constructor. When every end marker closes a block that a start marker
  opened, that is one stream per complete pair. A start marker discards the pending
  lines, and lines after the last end marker contribute nothing.
\<close>

theorem streams_per_end_marker:
  "read_streams stdout_lines stderr_lines
     = all_results (map FFStream_init (closed_blocks [] (stdout_lines @ stderr_lines)))
   \<and> length (closed_blocks [] (stdout_lines @ stderr_lines))
       = length (filter match_end (stdout_lines @ stderr_lines))
   \<and> (\<forall>strs. read_streams stdout_lines stderr_lines = Inr strs \<longrightarrow>
         map FFStream_init (closed_blocks [] (stdout_lines @ stderr_lines)) = map Inr strs
         \<and> length strs = length (filter match_end (stdout_lines @ stderr_lines))
         \<and> (ends_matched False (stdout_lines @ stderr_lines) \<longrightarrow>
              length strs = complete_pairs False (stdout_lines @ stderr_lines)))
   \<and> (\<forall>a rest strs dl. match_start a \<longrightarrow>
         read_lines (strs, dl) (a # rest) = read_lines (strs, []) rest)
   \<and> (\<forall>tail. (\<forall>a \<in> set tail. \<not> match_end a) \<longrightarrow>
         read_streams stdout_lines (stderr_lines @ tail)
           = read_streams stdout_lines stderr_lines)"
proof (intro conjI allI impI)
  show b: "read_streams stdout_lines stderr_lines
     = all_results (map FFStream_init (closed_blocks [] (stdout_lines @ stderr_lines)))"
    by (rule read_streams_blocks)
  show l: "length (closed_blocks [] (stdout_lines @ stderr_lines))
       = length (filter match_end (stdout_lines @ stderr_lines))"
    by (rule length_closed_blocks)
  {
    fix strs
    assume r: "read_streams stdout_lines stderr_lines = Inr strs"
    from r b have a: "all_results (map FFStream_init
        (closed_blocks [] (stdout_lines @ stderr_lines))) = Inr strs"
      by simp
    from all_results_map [OF a]
    show "map FFStream_init (closed_blocks [] (stdout_lines @ stderr_lines)) = map Inr strs" .
    from length_all_results [OF a] l
    show n: "length strs = length (filter match_end (stdout_lines @ stderr_lines))"
      by simp
    assume "ends_matched False (stdout_lines @ stderr_lines)"
    from complete_pairs_matched [OF this] n
    show "length strs = complete_pairs False (stdout_lines @ stderr_lines)"
      by simp
  }
  {
    fix a :: string and rest :: "string list" and strs :: "FFStream list" and dl :: "string list"
    assume "match_start a"
    then show "read_lines (strs, dl) (a # rest) = read_lines (strs, []) rest"
      by simp
  }
  {
    fix tail
    assume "\<forall>a \<in> set tail. \<not> match_end a"
    then have "closed_blocks [] ((stdout_lines @ stderr_lines) @ tail)
               = closed_blocks [] (stdout_lines @ stderr_lines)"
      by (rule closed_blocks_no_end)
    then show "read_streams stdout_lines (stderr_lines @ tail)
               = read_streams stdout_lines stderr_lines"
      by (simp add: read_streams_blocks)
  }
qed

lemma sample_read:
  "read_streams sample_stdout sample_stderr = Inr [sample_video, sample_audio]"
  by (simp add: read_streams_def sample_stdout_def sample_stderr_def
      sample_video_def sample_audio_def match_start_def match_end_def
      FFStream_init_def py_strip_def py_isspace_def)

lemma sample_pairs:
  "ends_matched False (sample_stdout @ sample_stderr)"
  "complete_pairs False (sample_stdout @ sample_stderr) = 2"
  "length (filter match_end (sample_stdout @ sample_stderr)) = 2"
  "\<forall>a \<in> set [''[STREAM]'', ''codec_type=data'']. \<not> match_end a"
  "match_start ''[STREAM]''"
  by (simp_all add: sample_stdout_def sample_stderr_def match_start_def match_end_def)

theorem streams_per_end_marker_witness:
  "read_streams sample_stdout sample_stderr = Inr [sample_video, sample_audio]
   \<and> ends_matched False (sample_stdout @ sample_stderr)
   \<and> length [sample_video, sample_audio] = complete_pairs False (sample_stdout @ sample_stderr)
   \<and> length [sample_video, sample_audio] = length (filter match_end (sample_stdout @ sample_stderr))
   \<and> map FFStream_init (closed_blocks [] (sample_stdout @ sample_stderr))
       = [Inr sample_video, Inr sample_audio]
   \<and> match_start ''[STREAM]''
   \<and> read_lines ([sample_video], [''width=640'']) [''[STREAM]'', ''[/STREAM]'']
       = read_lines ([sample_video], []) [''[/STREAM]'']
   \<and> \<not> match_end ''[STREAM]'' \<and> \<not> match_end ''codec_type=data''
   \<and> read_streams sample_stdout (sample_stderr @ [''[STREAM]'', ''codec_type=data''])
       = Inr [sample_video, sample_audio]"
proof -
  note t = streams_per_end_marker [of sample_stdout sample_stderr]
  note r = t [THEN conjunct2, THEN conjunct2, THEN conjunct1, rule_format, OF sample_read]
  note st = t [THEN conjunct2, THEN conjunct2, THEN conjunct2, THEN conjunct1, rule_format,
      where a = "''[STREAM]''" and rest = "[''[/STREAM]'']" and strs = "[sample_video]"
        and dl = "[''width=640'']", OF sample_pairs(5)]
  note tl = t [THEN conjunct2, THEN conjunct2, THEN conjunct2, THEN conjunct2, rule_format,
      where tail = "[''[STREAM]'', ''codec_type=data'']", OF sample_pairs(4) [rule_format]]
  have 1: "map FFStream_init (closed_blocks [] (sample_stdout @ sample_stderr))
       = [Inr sample_video, Inr sample_audio]"
    using r [THEN conjunct1] by simp
  have 2: "length [sample_video, sample_audio]
       = length (filter match_end (sample_stdout @ sample_stderr))"
    using r [THEN conjunct2, THEN conjunct1] .
  have 3: "length [sample_video, sample_audio]
       = complete_pairs False (sample_stdout @ sample_stderr)"
    using r [THEN conjunct2, THEN conjunct2, rule_format, OF sample_pairs(1)] .
  have 4: "read_streams sample_stdout (sample_stderr @ [''[STREAM]'', ''codec_type=data''])
       = Inr [sample_video, sample_audio]"
    using tl sample_read by (simp only:)
  have 5: "\<not> match_end ''[STREAM]''" "\<not> match_end ''codec_type=data''"
    using sample_pairs(4) by simp_all
  show ?thesis
    using sample_read sample_pairs(1) 3 2 1 sample_pairs(5) st 5 4
    by (intro conjI)
qed

section \<open>Fields of a stream\<close>

lemma length_py_split: "length (py_split sep s) = count_list s sep + 1"
  by (induction s) (auto split: list.splits)

lemma py_split_none: "sep \<notin> set s \<Longrightarrow> py_split sep s = [s]"
  by (induction s) auto

lemma py_split_one:
  "count_list s sep = 1 \<Longrightarrow>
   py_split sep s = [takeWhile (\<lambda>c. c \<noteq> sep) s, drop 1 (dropWhile (\<lambda>c. c \<noteq> sep) s)]"
proof (induction s)
  case Nil
  then show ?case by simp
next
  case (Cons c cs)
  show ?case
  proof (cases "c = sep")
    case True
    with Cons.prems have "count_list cs sep = 0" by simp
    then have "sep \<notin> set cs" by (simp add: count_list_0_iff)
    with True show ?thesis by (simp add: py_split_none)
  next
    case False
    with Cons.prems have "count_list cs sep = 1" by simp
    from Cons.IH [OF this] False show ?thesis by simp
  qed
qed

lemma count_list_dropWhile:
  "\<not> P c \<Longrightarrow> count_list (dropWhile P xs) c = count_list xs c"
  by (induction xs) auto

lemma count_list_py_strip: "count_list (py_strip a) (CHR ''='') = count_list a (CHR ''='')"
proof -
  have "\<not> py_isspace (CHR ''='')" by (simp add: py_isspace_def)
  then show ?thesis by (simp add: py_strip_def count_list_dropWhile)
qed

lemma split_line:
  "count_list a (CHR ''='') = 1 \<Longrightarrow>
   py_split (CHR ''='') (py_strip a) = [fst (key_value a), snd (key_value a)]"
  by (simp add: key_value_def py_split_one count_list_py_strip)

lemma split_line_other:
  assumes "count_list a (CHR ''='') \<noteq> 1"
  shows "length (py_split (CHR ''='') (py_strip a)) \<noteq> 2"
  using assms by (simp add: length_py_split count_list_py_strip)

lemma FFStream_fill_map_of:
  "\<forall>a \<in> set data_lines. count_list a (CHR ''='') = 1 \<Longrightarrow>
   FFStream_fill d data_lines = Inr (d ++ map_of (rev (map key_value data_lines)))"
proof (induction data_lines arbitrary: d)
  case Nil
  then show ?case by simp
next
  case (Cons a data_lines)
  have "d(fst (key_value a) \<mapsto> snd (key_value a)) ++ map_of (rev (map key_value data_lines))
        = d ++ map_of (rev (map key_value data_lines) @ [key_value a])"
    by (rule ext) (auto simp: map_add_def split: option.splits)
  with Cons show ?case by (simp add: split_line)
qed

lemma FFStream_fill_raises:
  "\<exists>a \<in> set data_lines. count_list a (CHR ''='') \<noteq> 1 \<Longrightarrow>
   FFStream_fill d data_lines = Inl ValueError"
proof (induction data_lines arbitrary: d)
  case Nil
  then show ?case by simp
next
  case (Cons a data_lines)
  show ?case
  proof (cases "count_list a (CHR ''='') = 1")
    case True
    with Cons.prems have "\<exists>a \<in> set data_lines. count_list a (CHR ''='') \<noteq> 1" by auto
    from Cons.IH [OF this] True show ?thesis by (simp add: split_line)
  next
    case False
    from split_line_other [OF False] show ?thesis
      by (auto split: list.splits)
  qed
qed

lemma key_value_parts:
  assumes "count_list a (CHR ''='') = 1"
  shows "py_strip a = fst (key_value a) @ ''='' @ snd (key_value a)"
    and "CHR ''='' \<notin> set (fst (key_value a))"
    and "CHR ''='' \<notin> set (snd (key_value a))"
proof -
  let ?s = "py_strip a"
  let ?P = "\<lambda>c. c \<noteq> CHR ''=''"
  from assms have c: "count_list ?s (CHR ''='') = 1" by (simp add: count_list_py_strip)
  then have "CHR ''='' \<in> set ?s" by (metis count_list_0_iff zero_neq_one)
  then have ne: "dropWhile ?P ?s \<noteq> []" by (auto simp: dropWhile_eq_Nil_conv)
  then have hd: "hd (dropWhile ?P ?s) = CHR ''=''"
    using hd_dropWhile [of ?P ?s] by simp
  from ne hd have d: "dropWhile ?P ?s = CHR ''='' # drop 1 (dropWhile ?P ?s)"
    by (cases "dropWhile ?P ?s") simp_all
  have "?s = takeWhile ?P ?s @ dropWhile ?P ?s" by simp
  with d have e: "?s = takeWhile ?P ?s @ CHR ''='' # drop 1 (dropWhile ?P ?s)" by simp
  then show "py_strip a = fst (key_value a) @ ''='' @ snd (key_value a)"
    by (simp add: key_value_def)
  show k: "CHR ''='' \<notin> set (fst (key_value a))"
    by (auto simp: key_value_def dest: set_takeWhileD)
  have "count_list ?s (CHR ''='')
        = count_list (takeWhile ?P ?s) (CHR ''='') + 1
          + count_list (drop 1 (dropWhile ?P ?s)) (CHR ''='')"
    by (subst e) simp
  with c have "count_list (drop 1 (dropWhile ?P ?s)) (CHR ''='') = 0" by simp
  then show "CHR ''='' \<notin> set (snd (key_value a))"
    by (simp add: key_value_def count_list_0_iff)
qed

lemma last_write_wins:
  assumes "\<forall>b \<in> set ys. fst b \<noteq> k"
  shows "map_of (rev (xs @ (k, v) # ys)) k = Some v"
proof -
  from assms have "map_of (rev ys) k = None"
    by (auto simp: map_of_eq_None_iff)
  then show ?thesis by (simp add: map_add_def)
qed

text \<open>
  Claim C6 says that each line is split on its first \<^verbatim>\<open>=\<close> and that the key and the
  value are both trimmed. The line is stripped as a whole before it is split, so the
  white space next to the \<^verbatim>\<open>=\<close> stays in the key and in the value; and a line with two
  \<^verbatim>\<open>=\<close> makes the constructor raise \<^verbatim>\<open>ValueError\<close>.
\<close>

theorem fields_not_trimmed:
  "bindE (FFStream_init ['' a = b '']) (\<lambda>d. getitem d ''a'') = Inl (KeyError ''a'')
   \<and> bindE (FFStream_init ['' a = b '']) (\<lambda>d. getitem d ''a '') = Inr '' b''
   \<and> FFStream_init [''a=b=c''] = Inl ValueError"
  by (simp add: FFStream_init_def py_strip_def py_isspace_def getitem_def)

text \<open>
  Claim C6, amended: for a block whose lines each contain exactly one \<^verbatim>\<open>=\<close>, the
  constructor strips the white space around each line and splits it at its \<^verbatim>\<open>=\<close>
  into the key (what stands before it) and the value (what stands after it), kept as
  they are; a later occurrence of a key overwrites an earlier one, and looking the key up
  returns the string last written for it. For a block with a line that has no \<^verbatim>\<open>=\<close>
  or more than one, the constructor raises \<^verbatim>\<open>ValueError\<close>.
\<close>

theorem fields_round_trip:
  "((\<forall>a \<in> set data_lines. count_list a (CHR ''='') = 1) \<longrightarrow>
      FFStream_init data_lines = Inr (map_of (rev (map key_value data_lines)))
      \<and> (\<forall>a \<in> set data_lines.
            py_strip a = fst (key_value a) @ ''='' @ snd (key_value a)
            \<and> CHR ''='' \<notin> set (fst (key_value a)) \<and> CHR ''='' \<notin> set (snd (key_value a)))
      \<and> (\<forall>xs a ys. data_lines = xs @ a # ys
            \<and> (\<forall>b \<in> set ys. fst (key_value b) \<noteq> fst (key_value a)) \<longrightarrow>
            bindE (FFStream_init data_lines) (\<lambda>d. getitem d (fst (key_value a)))
              = Inr (snd (key_value a))))
   \<and> ((\<exists>a \<in> set data_lines. count_list a (CHR ''='') \<noteq> 1) \<longrightarrow>
        FFStream_init data_lines = Inl ValueError)"
proof (intro conjI impI allI ballI)
  assume one: "\<forall>a \<in> set data_lines. count_list a (CHR ''='') = 1"
  show i: "FFStream_init data_lines = Inr (map_of (rev (map key_value data_lines)))"
    using FFStream_fill_map_of [OF one, of Map.empty] by (simp add: FFStream_init_def)
  {
    fix a
    assume "a \<in> set data_lines"
    with one have c: "count_list a (CHR ''='') = 1" by simp
    from key_value_parts [OF c]
    show "py_strip a = fst (key_value a) @ ''='' @ snd (key_value a)"
      and "CHR ''='' \<notin> set (fst (key_value a))"
      and "CHR ''='' \<notin> set (snd (key_value a))" .
  }
  {
    fix xs a ys
    assume h: "data_lines = xs @ a # ys
            \<and> (\<forall>b \<in> set ys. fst (key_value b) \<noteq> fst (key_value a))"
    then have "\<forall>b \<in> set (map key_value ys). fst b \<noteq> fst (key_value a)" by simp
    from last_write_wins [OF this, of "map key_value xs" "snd (key_value a)"]
    have "map_of (rev (map key_value data_lines)) (fst (key_value a)) = Some (snd (key_value a))"
      using h by simp
    then show "bindE (FFStream_init data_lines) (\<lambda>d. getitem d (fst (key_value a)))
              = Inr (snd (key_value a))"
      by (simp add: i)
  }
next
  assume "\<exists>a \<in> set data_lines. count_list a (CHR ''='') \<noteq> 1"
  from FFStream_fill_raises [OF this] show "FFStream_init data_lines = Inl ValueError"
    by (simp add: FFStream_init_def)
qed

lemma sample_lines_one_eq:
  "count_list ''a=1'' (CHR ''='') = 1"
  "count_list '' b = 2 '' (CHR ''='') = 1"
  "count_list ''a=3'' (CHR ''='') = 1"
  "count_list ''a=b=c'' (CHR ''='') = 2"
  by simp_all

lemma sample_key_values:
  "key_value ''a=1'' = (''a'', ''1'')"
  "key_value '' b = 2 '' = (''b '', '' 2'')"
  "key_value ''a=3'' = (''a'', ''3'')"
  by (simp_all add: key_value_def py_strip_def py_isspace_def)

theorem fields_round_trip_witness:
  "count_list ''a=1'' (CHR ''='') = 1 \<and> count_list '' b = 2 '' (CHR ''='') = 1
   \<and> count_list ''a=3'' (CHR ''='') = 1
   \<and> FFStream_init [''a=1'', '' b = 2 '', ''a=3'']
       = Inr (map_of [(''a'', ''3''), (''b '', '' 2''), (''a'', ''1'')])
   \<and> bindE (FFStream_init [''a=1'', '' b = 2 '', ''a=3'']) (\<lambda>d. getitem d ''a'') = Inr ''3''
   \<and> bindE (FFStream_init [''a=1'', '' b = 2 '', ''a=3'']) (\<lambda>d. getitem d ''b '') = Inr '' 2''
   \<and> count_list ''a=b=c'' (CHR ''='') = 2
   \<and> FFStream_init [''a=1'', ''a=b=c''] = Inl ValueError"
proof -
  note t = fields_round_trip [of "[''a=1'', '' b = 2 '', ''a=3'']"]
  have one: "\<forall>a \<in> set [''a=1'', '' b = 2 '', ''a=3'']. count_list a (CHR ''='') = 1"
    by simp
  note r = t [THEN conjunct1, THEN mp, OF one]
  have 1: "FFStream_init [''a=1'', '' b = 2 '', ''a=3'']
       = Inr (map_of [(''a'', ''3''), (''b '', '' 2''), (''a'', ''1'')])"
    using r [THEN conjunct1] by (simp add: sample_key_values)
  have 2: "bindE (FFStream_init [''a=1'', '' b = 2 '', ''a=3'']) (\<lambda>d. getitem d ''a'') = Inr ''3''"
    using r [THEN conjunct2, THEN conjunct2, rule_format,
        where xs = "[''a=1'', '' b = 2 '']" and a = "''a=3''" and ys = "[]"]
    by (simp add: sample_key_values)
  have 3: "bindE (FFStream_init [''a=1'', '' b = 2 '', ''a=3'']) (\<lambda>d. getitem d ''b '') = Inr '' 2''"
    using r [THEN conjunct2, THEN conjunct2, rule_format,
        where xs = "[''a=1'']" and a = "'' b = 2 ''" and ys = "[''a=3'']"]
    by (simp add: sample_key_values)
  have 4: "FFStream_init [''a=1'', ''a=b=c''] = Inl ValueError"
    using fields_round_trip [of "[''a=1'', ''a=b=c'']", THEN conjunct2] by simp
  show ?thesis
    using sample_lines_one_eq 1 2 3 4 by (intro conjI)
qed

section \<open>Numbers written with digits\<close>

lemma is_digit_facts:
  assumes "is_digit c"
  shows "\<not> num_space c" "c \<noteq> CHR ''_''" "c \<noteq> CHR ''+''" "c \<noteq> CHR ''-''" "to_lower c = c"
  using assms by (auto simp: is_digit_def num_space_def to_lower_def)

lemma dropWhile_hd: "xs \<noteq> [] \<Longrightarrow> \<not> P (hd xs) \<Longrightarrow> dropWhile P xs = xs"
  by (cases xs) simp_all

lemma strip_num_digits:
  assumes "ds \<noteq> []" and "list_all is_digit ds"
  shows "strip_num ds = ds"
proof -
  from assms have h: "is_digit (hd ds)" and l: "is_digit (last ds)"
    by (auto simp: list_all_iff)
  from assms(1) h have 1: "dropWhile num_space ds = ds"
    by (intro dropWhile_hd) (simp_all add: is_digit_facts)
  from assms(1) l have 2: "dropWhile num_space (rev ds) = rev ds"
    by (intro dropWhile_hd) (simp_all add: is_digit_facts hd_rev)
  show ?thesis by (simp add: strip_num_def 1 2)
qed

lemma underscores_ok_digits: "list_all is_digit ds \<Longrightarrow> underscores_ok p ds"
  by (induction ds arbitrary: p) (auto simp: is_digit_facts)

lemma drop_underscores_digits: "list_all is_digit ds \<Longrightarrow> drop_underscores ds = ds"
  by (induction ds) (auto simp: drop_underscores_def is_digit_facts)

lemma take_sign_digits: "list_all is_digit ds \<Longrightarrow> take_sign ds = (1, ds)"
  by (cases ds) (auto simp: take_sign_def is_digit_facts)

lemma py_int_digits:
  assumes "ds \<noteq> []" and "list_all is_digit ds" and "length ds \<le> 4300"
  shows "py_int ds = Some (digits_val ds)"
  using assms
  by (simp add: py_int_def strip_num_digits underscores_ok_digits drop_underscores_digits
      take_sign_digits int_max_str_digits_def)

lemma py_float_digits:
  assumes "ds \<noteq> []" and "list_all is_digit ds"
  shows "py_float ds = Some (to_double (of_int (digits_val ds)))"
proof -
  have low: "map to_lower ds = ds"
    using assms(2) by (induction ds) (simp_all add: is_digit_facts)
  have "\<not> list_all is_digit ''inf''" "\<not> list_all is_digit ''infinity''"
    "\<not> list_all is_digit ''nan''"
    by (simp_all add: is_digit_def)
  with assms(2) have ne: "ds \<noteq> ''inf''" "ds \<noteq> ''infinity''" "ds \<noteq> ''nan''"
    by auto
  have tw: "takeWhile is_digit ds = ds" "dropWhile is_digit ds = []"
    using assms(2) by (simp_all add: list_all_iff)
  show ?thesis
    using assms(1)
    by (simp add: py_float_def strip_num_digits [OF assms] underscores_ok_digits [OF assms(2)]
        drop_underscores_digits [OF assms(2)] take_sign_digits [OF assms(2)] low ne tw
        take_exponent_def)
qed

lemma takeWhile_digits: "list_all is_digit (takeWhile is_digit t)"
  by (induction t) simp_all

lemma search_rate_groups:
  assumes "search_rate raw = Some (g1, g2)"
  shows "g1 \<noteq> [] \<and> list_all is_digit g1
         \<and> (\<forall>d. g2 = Some d \<longrightarrow> d \<noteq> [] \<and> list_all is_digit d)"
proof -
  let ?t = "dropWhile (\<lambda>c. \<not> is_digit c) raw"
  from assms have ne: "?t \<noteq> []"
    by (auto simp: search_rate_def Let_def simp del: dropWhile_eq_Nil_conv split: if_splits)
  then have "is_digit (hd ?t)"
    using hd_dropWhile [of "\<lambda>c. \<not> is_digit c" raw] by simp
  with ne have g: "takeWhile is_digit ?t \<noteq> []"
    by (cases ?t) simp_all
  define r where "r = dropWhile is_digit ?t"
  from ne have "search_rate raw =
     (case r of
        [] \<Rightarrow> Some (takeWhile is_digit ?t, None)
      | c # u \<Rightarrow>
          if c = CHR ''/'' \<and> takeWhile is_digit u \<noteq> []
          then Some (takeWhile is_digit ?t, Some (takeWhile is_digit u))
          else Some (takeWhile is_digit ?t, None))"
    by (simp add: search_rate_def Let_def r_def del: dropWhile_eq_Nil_conv)
  with assms have e:
    "(case r of
        [] \<Rightarrow> Some (takeWhile is_digit ?t, None)
      | c # u \<Rightarrow>
          if c = CHR ''/'' \<and> takeWhile is_digit u \<noteq> []
          then Some (takeWhile is_digit ?t, Some (takeWhile is_digit u))
          else Some (takeWhile is_digit ?t, None)) = Some (g1, g2)"
    by (simp only:)
  from e have 1: "g1 = takeWhile is_digit ?t"
    by (cases r) (simp_all split: if_splits)
  from e have 2: "\<forall>d. g2 = Some d \<longrightarrow> d \<noteq> [] \<and> (\<exists>u. d = takeWhile is_digit u)"
    by (cases r) (auto split: if_splits)
  from 1 2 g show ?thesis
    by (auto simp: takeWhile_digits)
qed

section \<open>The rate of a raw value\<close>

lemma rate_of_raw_no_digit:
  assumes "search_rate raw = None"
  shows "rate_of_raw raw = of_option (py_float raw)"
  using assms by (simp add: rate_of_raw_def)

lemma rate_of_raw_whole:
  assumes "search_rate raw = Some (g1, None)"
  shows "rate_of_raw raw = Inr (to_double (of_int (digits_val g1)))"
  using assms search_rate_groups [OF assms]
  by (simp add: rate_of_raw_def py_float_digits)

lemma rate_of_raw_fraction:
  assumes "search_rate raw = Some (g1, Some g2)"
  shows "rate_of_raw raw =
           bindE (float_div (to_double (of_int (digits_val g1))) (to_double (of_int (digits_val g2))))
             (\<lambda>q. Inr (py_round2 q))"
  using assms search_rate_groups [OF assms]
  by (simp add: rate_of_raw_def py_float_digits)

lemma rate_of_raw_not_ValueError:
  assumes "search_rate raw = Some (g1, g2)"
  shows "rate_of_raw raw \<noteq> Inl ValueError"
proof (cases g2)
  case None
  with assms show ?thesis by (simp add: rate_of_raw_whole)
next
  case (Some d)
  with assms show ?thesis
    by (simp add: rate_of_raw_fraction float_div_def)
qed

lemma rate_of_raw_samples:
  "rate_of_raw ''30000/1001'' = Inr (to_double (2997 / 100))"
  "rate_of_raw ''25/1'' = Inr (Finite 25)"
  "rate_of_raw ''25'' = Inr (Finite 25)"
  "rate_of_raw ''x'' = Inl ValueError"
  "rate_of_raw ''1/0'' = Inl ZeroDivisionError"
  "rate_of_raw ''inf'' = Inr PosInf"
  by code_simp+

lemma to_double_29_97: "to_double (2997 / 100) = Finite (1054475631502295 / 35184372088832)"
  by code_simp

lemma get_r_frame_rate_present:
  assumes "self ''r_frame_rate'' = Some raw" and "raw \<noteq> []"
  shows "get_r_frame_rate self
         = except_ValueError (rate_of_raw raw) (FFProbeError ''Nothing useful in r_frame_rate'')"
  using assms by (simp add: get_r_frame_rate_def)

lemma get_avg_frame_rate_present:
  assumes "self ''avg_frame_rate'' = Some raw" and "raw \<noteq> []"
  shows "get_avg_frame_rate self
         = except_ValueError (rate_of_raw raw) (FFProbeError ''Nothing useful in r_frame_rate'')"
  using assms by (simp add: get_avg_frame_rate_def)

lemma parsed_rate_cases:
  assumes "r
           = except_ValueError (rate_of_raw raw) (FFProbeError ''Nothing useful in r_frame_rate'')"
  shows "search_rate raw = None \<longrightarrow>
           r = (case py_float raw of
                         None \<Rightarrow> Inl (FFProbeError ''Nothing useful in r_frame_rate'')
                       | Some x \<Rightarrow> Inr x)"
    and "\<forall>g1. search_rate raw = Some (g1, None) \<longrightarrow>
           r = Inr (to_double (of_int (digits_val g1)))"
    and "\<forall>g1 g2. search_rate raw = Some (g1, Some g2) \<longrightarrow>
           r =
             (if digits_val g2 = 0 then Inl ZeroDivisionError
              else bindE (float_div (to_double (of_int (digits_val g1)))
                            (to_double (of_int (digits_val g2))))
                     (\<lambda>q. Inr (py_round2 q)))"
proof -
  show "search_rate raw = None \<longrightarrow>
           r = (case py_float raw of
                         None \<Rightarrow> Inl (FFProbeError ''Nothing useful in r_frame_rate'')
                       | Some x \<Rightarrow> Inr x)"
    by (simp add: assms rate_of_raw_no_digit split: option.splits)
  show "\<forall>g1. search_rate raw = Some (g1, None) \<longrightarrow>
           r = Inr (to_double (of_int (digits_val g1)))"
    by (simp add: assms rate_of_raw_whole)
  have z: "to_double 0 = Finite 0"
    by (simp add: to_double_def)
  show "\<forall>g1 g2. search_rate raw = Some (g1, Some g2) \<longrightarrow>
           r =
             (if digits_val g2 = 0 then Inl ZeroDivisionError
              else bindE (float_div (to_double (of_int (digits_val g1)))
                            (to_double (of_int (digits_val g2))))
                     (\<lambda>q. Inr (py_round2 q)))"
  proof (intro allI impI)
    fix g1 g2
    assume sr: "search_rate raw = Some (g1, Some g2)"
    let ?r = "bindE (float_div (to_double (of_int (digits_val g1)))
                            (to_double (of_int (digits_val g2))))
                     (\<lambda>q. Inr (py_round2 q))"
    have 1: "rate_of_raw raw = ?r"
      by (rule rate_of_raw_fraction [OF sr])
    have 2: "?r \<noteq> Inl ValueError"
      using rate_of_raw_not_ValueError [OF sr] 1 by simp
    have 3: "r = ?r"
      using 2 by (cases ?r) (simp_all add: assms 1)
    show "r = (if digits_val g2 = 0 then Inl ZeroDivisionError else ?r)"
      by (simp add: 3 z float_div_def)
  qed
qed

section \<open>The frame rates\<close>

text \<open>
  Claim C1 says that the rate parser fails with the typed error on an absent field and
  on a zero denominator, and that it never produces an infinity. An absent field raises
  \<^verbatim>\<open>KeyError\<close>, a zero denominator raises \<^verbatim>\<open>ZeroDivisionError\<close>, and the raw value
  \<^verbatim>\<open>inf\<close> gives an infinite rate.
\<close>

theorem rate_parser_other_failures:
  "get_r_frame_rate (map_of [(''r_frame_rate'', ''1/0'')]) = Inl ZeroDivisionError
   \<and> get_avg_frame_rate (map_of [(''avg_frame_rate'', ''1/0'')]) = Inl ZeroDivisionError
   \<and> get_r_frame_rate (map_of [(''avg_frame_rate'', ''25/1'')]) = Inl (KeyError ''r_frame_rate'')
   \<and> get_avg_frame_rate (map_of [(''r_frame_rate'', ''25/1'')]) = Inl (KeyError ''avg_frame_rate'')
   \<and> get_avg_frame_rate (map_of [(''avg_frame_rate'', ''inf'')]) = Inr PosInf"
  by (simp add: get_r_frame_rate_def get_avg_frame_rate_def rate_of_raw_samples)

text \<open>
  Claim C1, amended: \<^verbatim>\<open>get_r_frame_rate\<close> on the field \<^verbatim>\<open>r_frame_rate\<close> and
  \<^verbatim>\<open>get_avg_frame_rate\<close> on the field \<^verbatim>\<open>avg_frame_rate\<close> return 29.97 for
  \<^verbatim>\<open>30000/1001\<close>, 25.0 for \<^verbatim>\<open>25/1\<close> and 25.0 for \<^verbatim>\<open>25\<close>. On a non-empty raw value
  with a digit, the first run of digits is the numerator; when a \<^verbatim>\<open>/\<close> and a second run
  of digits follow it directly the result is the quotient rounded to two decimals, and
  a denominator of value zero raises \<^verbatim>\<open>ZeroDivisionError\<close>; otherwise the result is
  the numerator. On a non-empty raw value with no digit the result is \<^verbatim>\<open>float(raw)\<close>,
  which is an infinity for \<^verbatim>\<open>inf\<close>, and \<^verbatim>\<open>FFProbeError\<close> when \<^verbatim>\<open>float()\<close> rejects the
  value (as for \<^verbatim>\<open>x\<close>). An absent field raises \<^verbatim>\<open>KeyError\<close>, and an empty
  \<^verbatim>\<open>avg_frame_rate\<close> raises \<^verbatim>\<open>FFProbeError\<close>.
\<close>

theorem rate_parser:
  assumes "(get = get_r_frame_rate \<and> f = ''r_frame_rate'')
           \<or> (get = get_avg_frame_rate \<and> f = ''avg_frame_rate'')"
  shows "(self f = None \<longrightarrow> get self = Inl (KeyError f))
       \<and> (\<forall>raw. self f = Some raw \<and> raw \<noteq> [] \<longrightarrow>
            (search_rate raw = None \<longrightarrow>
               get self = (case py_float raw of
                             None \<Rightarrow> Inl (FFProbeError ''Nothing useful in r_frame_rate'')
                           | Some x \<Rightarrow> Inr x))
            \<and> (\<forall>g1. search_rate raw = Some (g1, None) \<longrightarrow>
                  get self = Inr (to_double (of_int (digits_val g1))))
            \<and> (\<forall>g1 g2. search_rate raw = Some (g1, Some g2) \<longrightarrow>
                  get self =
                    (if digits_val g2 = 0 then Inl ZeroDivisionError
                     else bindE (float_div (to_double (of_int (digits_val g1)))
                                   (to_double (of_int (digits_val g2))))
                            (\<lambda>q. Inr (py_round2 q)))))
       \<and> (self f = Some ''30000/1001'' \<longrightarrow> get self = Inr (to_double (2997 / 100)))
       \<and> (self f = Some ''25/1'' \<longrightarrow> get self = Inr (Finite 25))
       \<and> (self f = Some ''25'' \<longrightarrow> get self = Inr (Finite 25))
       \<and> (self f = Some ''x'' \<longrightarrow>
            get self = Inl (FFProbeError ''Nothing useful in r_frame_rate''))
       \<and> (self f = Some ''1/0'' \<longrightarrow> get self = Inl ZeroDivisionError)
       \<and> (self f = Some ''inf'' \<longrightarrow> get self = Inr PosInf)
       \<and> (f = ''avg_frame_rate'' \<and> self f = Some [] \<longrightarrow>
            get self = Inl (FFProbeError ''Nothing useful in r_frame_rate''))"
proof -
  have p: "get self = except_ValueError (rate_of_raw raw)
                        (FFProbeError ''Nothing useful in r_frame_rate'')"
    if "self f = Some raw" and "raw \<noteq> []" for raw
    using assms that get_r_frame_rate_present [of self raw] get_avg_frame_rate_present [of self raw]
    by auto
  have a: "self f = None \<longrightarrow> get self = Inl (KeyError f)"
    using assms by (auto simp: get_r_frame_rate_def get_avg_frame_rate_def)
  have b: "\<forall>raw. self f = Some raw \<and> raw \<noteq> [] \<longrightarrow>
            (search_rate raw = None \<longrightarrow>
               get self = (case py_float raw of
                             None \<Rightarrow> Inl (FFProbeError ''Nothing useful in r_frame_rate'')
                           | Some x \<Rightarrow> Inr x))
            \<and> (\<forall>g1. search_rate raw = Some (g1, None) \<longrightarrow>
                  get self = Inr (to_double (of_int (digits_val g1))))
            \<and> (\<forall>g1 g2. search_rate raw = Some (g1, Some g2) \<longrightarrow>
                  get self =
                    (if digits_val g2 = 0 then Inl ZeroDivisionError
                     else bindE (float_div (to_double (of_int (digits_val g1)))
                                   (to_double (of_int (digits_val g2))))
                            (\<lambda>q. Inr (py_round2 q))))"
  proof (intro allI impI)
    fix raw
    assume "self f = Some raw \<and> raw \<noteq> []"
    then have "get self = except_ValueError (rate_of_raw raw)
                        (FFProbeError ''Nothing useful in r_frame_rate'')"
      using p by simp
    from parsed_rate_cases [OF this] show
      "(search_rate raw = None \<longrightarrow>
               get self = (case py_float raw of
                             None \<Rightarrow> Inl (FFProbeError ''Nothing useful in r_frame_rate'')
                           | Some x \<Rightarrow> Inr x))
            \<and> (\<forall>g1. search_rate raw = Some (g1, None) \<longrightarrow>
                  get self = Inr (to_double (of_int (digits_val g1))))
            \<and> (\<forall>g1 g2. search_rate raw = Some (g1, Some g2) \<longrightarrow>
                  get self =
                    (if digits_val g2 = 0 then Inl ZeroDivisionError
                     else bindE (float_div (to_double (of_int (digits_val g1)))
                                   (to_double (of_int (digits_val g2))))
                            (\<lambda>q. Inr (py_round2 q))))"
      by (intro conjI)
  qed
  have c: "self f = Some ''30000/1001'' \<longrightarrow> get self = Inr (to_double (2997 / 100))"
    "self f = Some ''25/1'' \<longrightarrow> get self = Inr (Finite 25)"
    "self f = Some ''25'' \<longrightarrow> get self = Inr (Finite 25)"
    "self f = Some ''x'' \<longrightarrow> get self = Inl (FFProbeError ''Nothing useful in r_frame_rate'')"
    "self f = Some ''1/0'' \<longrightarrow> get self = Inl ZeroDivisionError"
    "self f = Some ''inf'' \<longrightarrow> get self = Inr PosInf"
    using p [of "''30000/1001''"] p [of "''25/1''"] p [of "''25''"] p [of "''x''"]
      p [of "''1/0''"] p [of "''inf''"]
    by (simp_all add: rate_of_raw_samples)
  have d: "f = ''avg_frame_rate'' \<and> self f = Some [] \<longrightarrow>
            get self = Inl (FFProbeError ''Nothing useful in r_frame_rate'')"
    using assms by (auto simp: get_avg_frame_rate_def)
  from a b c d show ?thesis
    by (intro conjI)
qed

lemma search_rate_samples:
  "search_rate ''fps 50'' = Some (''50'', None)"
  "search_rate ''24/2'' = Some (''24'', Some ''2'')"
  "search_rate ''nan'' = None"
  "py_float ''nan'' = Some NaN"
  "digits_val ''50'' = 50"
  "digits_val ''2'' = 2"
  "digits_val ''24'' = 24"
  "bindE (float_div (to_double 24) (to_double 2)) (\<lambda>q. Inr (py_round2 q)) = Inr (Finite 12)"
  "to_double 50 = Finite 50"
  by code_simp+

theorem rate_parser_witness:
  "get_r_frame_rate (map_of [(''r_frame_rate'', ''30000/1001'')]) = Inr (to_double (2997 / 100))
   \<and> to_double (2997 / 100) = Finite (1054475631502295 / 35184372088832)
   \<and> get_avg_frame_rate (map_of [(''avg_frame_rate'', ''25/1'')]) = Inr (Finite 25)
   \<and> get_avg_frame_rate (map_of [(''avg_frame_rate'', ''25'')]) = Inr (Finite 25)
   \<and> get_r_frame_rate (map_of [(''r_frame_rate'', ''x'')])
       = Inl (FFProbeError ''Nothing useful in r_frame_rate'')
   \<and> get_avg_frame_rate (map_of [(''avg_frame_rate'', '''')])
       = Inl (FFProbeError ''Nothing useful in r_frame_rate'')
   \<and> get_avg_frame_rate (map_of [(''r_frame_rate'', ''25'')]) = Inl (KeyError ''avg_frame_rate'')
   \<and> search_rate ''fps 50'' = Some (''50'', None)
   \<and> get_r_frame_rate (map_of [(''r_frame_rate'', ''fps 50'')]) = Inr (Finite 50)
   \<and> search_rate ''24/2'' = Some (''24'', Some ''2'')
   \<and> get_r_frame_rate (map_of [(''r_frame_rate'', ''24/2'')]) = Inr (Finite 12)
   \<and> search_rate ''nan'' = None
   \<and> get_avg_frame_rate (map_of [(''avg_frame_rate'', ''nan'')]) = Inr NaN"
proof -
  note r = rate_parser [where get = get_r_frame_rate and f = "''r_frame_rate''", simplified]
  note a = rate_parser [where get = get_avg_frame_rate and f = "''avg_frame_rate''", simplified]
  have 1: "get_r_frame_rate (map_of [(''r_frame_rate'', ''30000/1001'')])
      = Inr (to_double (2997 / 100))"
    using r [where self = "map_of [(''r_frame_rate'', ''30000/1001'')]"] by simp
  have 2: "get_avg_frame_rate (map_of [(''avg_frame_rate'', ''25/1'')]) = Inr (Finite 25)"
    using a [where self = "map_of [(''avg_frame_rate'', ''25/1'')]"] by simp
  have 3: "get_avg_frame_rate (map_of [(''avg_frame_rate'', ''25'')]) = Inr (Finite 25)"
    using a [where self = "map_of [(''avg_frame_rate'', ''25'')]"] by simp
  have 4: "get_r_frame_rate (map_of [(''r_frame_rate'', ''x'')])
       = Inl (FFProbeError ''Nothing useful in r_frame_rate'')"
    using r [where self = "map_of [(''r_frame_rate'', ''x'')]"] by simp
  have 5: "get_avg_frame_rate (map_of [(''avg_frame_rate'', '''')])
       = Inl (FFProbeError ''Nothing useful in r_frame_rate'')"
    using a [where self = "map_of [(''avg_frame_rate'', '''')]"] by simp
  have 6: "get_avg_frame_rate (map_of [(''r_frame_rate'', ''25'')])
       = Inl (KeyError ''avg_frame_rate'')"
    using a [where self = "map_of [(''r_frame_rate'', ''25'')]"] by simp
  have 7: "get_r_frame_rate (map_of [(''r_frame_rate'', ''fps 50'')]) = Inr (Finite 50)"
    using r [where self = "map_of [(''r_frame_rate'', ''fps 50'')]", THEN conjunct2,
        THEN conjunct1, rule_format, where raw = "''fps 50''", THEN conjunct2, THEN conjunct1,
        rule_format, where ?g1.0 = "''50''"]
    by (simp add: search_rate_samples)
  have 8: "get_r_frame_rate (map_of [(''r_frame_rate'', ''24/2'')]) = Inr (Finite 12)"
    using r [where self = "map_of [(''r_frame_rate'', ''24/2'')]", THEN conjunct2,
        THEN conjunct1, rule_format, where raw = "''24/2''", THEN conjunct2, THEN conjunct2,
        rule_format, where ?g1.0 = "''24''" and ?g2.0 = "''2''"]
    by (simp add: search_rate_samples)
  have 9: "get_avg_frame_rate (map_of [(''avg_frame_rate'', ''nan'')]) = Inr NaN"
    using a [where self = "map_of [(''avg_frame_rate'', ''nan'')]", THEN conjunct2,
        THEN conjunct1, rule_format, where raw = "''nan''", THEN conjunct1]
    by (simp add: search_rate_samples)
  show ?thesis
    using 1 to_double_29_97 2 3 4 5 6 search_rate_samples(1) 7 search_rate_samples(2) 8
      search_rate_samples(3) 9
    by (intro conjI)
qed

section \<open>Integers as floats\<close>

lemma bitlength_pos: "0 < n \<Longrightarrow> bitlength n = 1 + bitlength (n div 2)"
  by (subst bitlength.simps) simp

lemma bitlength_nonpos: "n \<le> 0 \<Longrightarrow> bitlength n = 0"
  by (subst bitlength.simps) simp

lemma bitlength_nonneg: "0 \<le> bitlength n"
proof (induction n rule: bitlength.induct)
  case (1 n)
  show ?case
  proof (cases "n \<le> 0")
    case True
    then show ?thesis by (simp only: bitlength_nonpos)
  next
    case False
    then have "bitlength n = 1 + bitlength (n div 2)" by (intro bitlength_pos) simp
    with "1.IH" [OF False] show ?thesis by linarith
  qed
qed

lemma bitlength_bounds:
  "0 < n \<Longrightarrow> 1 \<le> bitlength n \<and> 2 ^ nat (bitlength n - 1) \<le> n \<and> n < 2 ^ nat (bitlength n)"
proof (induction n rule: bitlength.induct)
  case (1 n)
  show ?case
  proof (cases "n = 1")
    case True
    have "bitlength (1::int) = 1 + bitlength (1 div 2)" by (intro bitlength_pos) simp
    also have "bitlength ((1::int) div 2) = 0" by (intro bitlength_nonpos) simp
    finally have "bitlength (1::int) = 1" by simp
    with True show ?thesis by simp
  next
    case False
    with "1.prems" have h: "0 < n div 2" by simp
    from "1.prems" have nle: "\<not> n \<le> 0" by simp
    from "1.IH" [OF nle] h have
      a: "1 \<le> bitlength (n div 2)" and
      b: "2 ^ nat (bitlength (n div 2) - 1) \<le> n div 2" and
      c: "n div 2 < 2 ^ nat (bitlength (n div 2))"
      by simp_all
    have bl: "bitlength n = 1 + bitlength (n div 2)"
      using "1.prems" by (rule bitlength_pos)
    define k where "k = nat (bitlength (n div 2) - 1)"
    from a have bk: "bitlength (n div 2) = int k + 1" by (simp add: k_def)
    have bn: "bitlength n = int k + 2" using bl bk by simp
    have e0: "nat (bitlength (n div 2)) = Suc k" "nat (bitlength (n div 2) - 1) = k"
      by (simp_all add: bk)
    have e1: "nat (bitlength n - 1) = Suc k" "nat (bitlength n) = Suc (Suc k)"
      by (simp_all add: bn)
    from b c have "2 ^ k \<le> n div 2" "n div 2 < 2 ^ Suc k"
      by (simp_all only: e0)
    then have "2 * 2 ^ k \<le> n" "n < 2 * 2 ^ Suc k"
      by linarith+
    then have "2 ^ Suc k \<le> n" "n < 2 ^ Suc (Suc k)"
      by simp_all
    moreover have "1 \<le> bitlength n" by (simp add: bn)
    ultimately show ?thesis by (simp only: e1)
  qed
qed

lemma bitlength_le:
  assumes "n < 2 ^ k"
  shows "bitlength n \<le> int k"
proof (cases "0 < n")
  case False
  then have "bitlength n = 0" by (intro bitlength_nonpos) simp
  then show ?thesis by simp
next
  case True
  from bitlength_bounds [OF True] have l: "2 ^ nat (bitlength n - 1) \<le> n" and p: "1 \<le> bitlength n"
    by simp_all
  with assms have "(2::int) ^ nat (bitlength n - 1) < 2 ^ k" by linarith
  then have "nat (bitlength n - 1) < k" by simp
  with p show ?thesis by linarith
qed

lemma round_half_even_of_int: "round_half_even (of_int j) = j"
  by (simp add: round_half_even_def)

lemma to_double_int_exact:
  assumes "0 < n" and "n < 2 ^ 53"
  shows "to_double (of_int n) = Finite (of_int n)"
proof -
  let ?b = "bitlength n"
  from bitlength_bounds [OF assms(1)] have
    p: "1 \<le> ?b" and l: "2 ^ nat (?b - 1) \<le> n" and u: "n < 2 ^ nat ?b"
    by simp_all
  from bitlength_le [OF assms(2)] have b53: "?b \<le> 53" by simp
  have q: "quotient_of (\<bar>of_int n\<bar>) = (n, 1)"
    using assms(1) by (simp add: quotient_of_int flip: of_int_abs)
  have b1: "bitlength 1 = 1"
  proof -
    have "bitlength (1::int) = 1 + bitlength (1 div 2)" by (intro bitlength_pos) simp
    also have "bitlength ((1::int) div 2) = 0" by (intro bitlength_nonpos) simp
    finally show ?thesis by simp
  qed
  have pw: "pow2 (?b - 1) \<le> \<bar>of_int n\<bar>"
  proof -
    from l have "(of_int (2 ^ nat (?b - 1)) :: rat) \<le> of_int n" by (simp only: of_int_le_iff)
    with p assms(1) show ?thesis by (simp add: pow2_def)
  qed
  define k where "k = nat (53 - ?b)"
  have ex: "max (?b - 1 - 52) (- 1074) = - int k"
    using p b53 by (simp add: k_def)
  have pk: "pow2 (- int k) = 1 / 2 ^ k"
    by (simp add: pow2_def)
  have m: "round_half_even (\<bar>of_int n\<bar> / pow2 (- int k)) = n * 2 ^ k"
  proof -
    have "\<bar>of_int n :: rat\<bar> / pow2 (- int k) = of_int (n * 2 ^ k)"
      using assms(1) by (simp add: pk)
    then show ?thesis by (simp only: round_half_even_of_int)
  qed
  have r: "(of_int (n * 2 ^ k) :: rat) * pow2 (- int k) = of_int n"
    by (simp add: pk)
  have "n * 2 ^ k < 2 ^ nat ?b * 2 ^ k"
    using u by simp
  also have "\<dots> = 2 ^ (nat ?b + k)" by (simp add: power_add)
  also have "nat ?b + k = 53" using p b53 by (simp add: k_def)
  finally have "bitlength (n * 2 ^ k) \<le> 53"
    using bitlength_le [of "n * 2 ^ k" 53] by simp
  then have ov: "\<not> 1024 < bitlength (n * 2 ^ k) + - int k" by simp
  have nz: "(of_int n :: rat) \<noteq> 0" using assms(1) by simp
  have pos: "(0::rat) < of_int n" using assms(1) by simp
  show ?thesis
    unfolding to_double_def Let_def q fst_conv snd_conv b1
    using nz pos pw by (simp only: if_False if_True ex m r ov)
qed

lemma int_to_float_exact:
  assumes "0 \<le> n" and "n < 2 ^ 53"
  shows "int_to_float n = Inr (Finite (of_int n))"
proof (cases "n = 0")
  case True
  then show ?thesis by (simp add: int_to_float_def to_double_def)
next
  case False
  with assms have "0 < n" by simp
  from to_double_int_exact [OF this assms(2)] show ?thesis
    by (simp add: int_to_float_def)
qed

lemma bitlength_ge:
  assumes "2 ^ k \<le> n"
  shows "int k + 1 \<le> bitlength n"
proof -
  have "(0::int) < 2 ^ k" by simp
  with assms have pos: "0 < n" by linarith
  from bitlength_bounds [OF pos] have u: "n < 2 ^ nat (bitlength n)" and p: "1 \<le> bitlength n"
    by simp_all
  with assms have "(2::int) ^ k < 2 ^ nat (bitlength n)" by linarith
  then have "k < nat (bitlength n)" by simp
  then show ?thesis by linarith
qed

lemma round_half_even_ge_floor: "\<lfloor>q\<rfloor> \<le> round_half_even q"
  by (simp add: round_half_even_def Let_def)

lemma int_to_float_overflow:
  assumes "2 ^ 1024 \<le> n"
  shows "int_to_float n = Inl OverflowError"
proof -
  have "(0::int) < 2 ^ 1024" by simp
  with assms have pos: "0 < n" by linarith
  let ?b = "bitlength n"
  from bitlength_bounds [OF pos] have
    p: "1 \<le> ?b" and l: "2 ^ nat (?b - 1) \<le> n" and u: "n < 2 ^ nat ?b"
    by simp_all
  from bitlength_ge [OF assms] have big: "1025 \<le> ?b" by simp
  have q: "quotient_of (\<bar>of_int n\<bar>) = (n, 1)"
    using pos by (simp add: quotient_of_int flip: of_int_abs)
  have b1: "bitlength 1 = 1"
  proof -
    have "bitlength (1::int) = 1 + bitlength (1 div 2)" by (intro bitlength_pos) simp
    also have "bitlength ((1::int) div 2) = 0" by (intro bitlength_nonpos) simp
    finally show ?thesis by simp
  qed
  have pw: "pow2 (?b - 1) \<le> \<bar>of_int n\<bar>"
  proof -
    from l have "(of_int (2 ^ nat (?b - 1)) :: rat) \<le> of_int n" by (simp only: of_int_le_iff)
    with p pos show ?thesis by (simp add: pow2_def)
  qed
  define j where "j = nat (?b - 53)"
  have ex: "max (?b - 1 - 52) (- 1074) = int j"
    using big by (simp add: j_def)
  have pj: "pow2 (int j) = 2 ^ j"
    by (simp add: pow2_def)
  define m where "m = round_half_even (\<bar>of_int n\<bar> / pow2 (int j))"
  have "nat (?b - 1) = 52 + j" using big by (simp add: j_def)
  with l have "2 ^ 52 * 2 ^ j \<le> n" by (simp add: power_add)
  then have "(of_int (2 ^ 52 * 2 ^ j) :: rat) \<le> of_int n" by (simp only: of_int_le_iff)
  then have "(2 ^ 52 :: rat) \<le> of_int n / 2 ^ j"
    by (simp add: pos_le_divide_eq)
  then have "(of_int (2 ^ 52) :: rat) \<le> \<bar>of_int n\<bar> / pow2 (int j)"
    using pos by (simp add: pj)
  then have "2 ^ 52 \<le> \<lfloor>\<bar>of_int n :: rat\<bar> / pow2 (int j)\<rfloor>"
    by (simp only: le_floor_iff)
  with round_half_even_ge_floor [of "\<bar>of_int n\<bar> / pow2 (int j)"] have "2 ^ 52 \<le> m"
    unfolding m_def by linarith
  from bitlength_ge [OF this] have "53 \<le> bitlength m" by simp
  with big have ov: "1024 < bitlength m + int j" by (simp add: j_def)
  have nz: "(of_int n :: rat) \<noteq> 0" using pos by simp
  have ps: "(0::rat) < of_int n" using pos by simp
  have "to_double (of_int n) = PosInf"
    unfolding to_double_def Let_def q fst_conv snd_conv b1
    using nz ps pw ov unfolding m_def by (simp only: if_False if_True ex)
  then show ?thesis by (simp add: int_to_float_def)
qed

lemma digits_val_snoc: "digits_val (ds @ [c]) = 10 * digits_val ds + digit_val c"
  by (simp add: digits_val_def)

lemma digits_val_zeros: "digits_val (CHR ''1'' # replicate k (CHR ''0'')) = 10 ^ k"
proof (induction k)
  case 0
  then show ?case by (simp add: digits_val_def digit_val_def)
next
  case (Suc k)
  have "CHR ''1'' # replicate (Suc k) (CHR ''0'') = (CHR ''1'' # replicate k (CHR ''0'')) @ [CHR ''0'']"
    by (simp add: replicate_append_same)
  then show ?case by (simp only: digits_val_snoc Suc.IH) (simp add: digit_val_def)
qed

lemma ten_309: "(2::int) ^ 1024 \<le> 10 ^ 309"
proof -
  have a: "(2::int) ^ 93 \<le> 10 ^ 28" by simp
  have "(2::int) ^ 1024 = (2 ^ 93) ^ 11 * 2" by (simp flip: power_mult power_Suc2)
  also have "\<dots> \<le> (10 ^ 28) ^ 11 * 10"
    by (intro mult_mono power_mono a) simp_all
  also have "\<dots> = 10 ^ 309" by (simp flip: power_mult power_Suc2)
  finally show ?thesis .
qed

end
